theory Spec2Isabelle
  imports Main "HOL-Library.AList"
begin

section \<open>Python values and the operations the module applies to them\<close>

text \<open>
  The module works on whatever \<open>json.loads\<close> returns and builds nested dicts out of it.
  Both sides are values of one type. Numbers are Python ints (the floats of JSON are not
  modelled). A dict is an association list in insertion order; its keys are values too,
  since \<open>_device_storage_data\<close> keys \<open>modules\<close> by an int and the series loops key
  \<open>inverters\<close> by whatever iterating \<open>Values\<close> yields.
\<close>

datatype error = KeyError | TypeError | IndexError | ValueError | URLError | JSONDecodeError

datatype pyval =
    PNone
  | PBool bool
  | PInt int
  | PStr string
  | PList "pyval list"
  | PDict "(pyval \<times> pyval) list"

type_synonym pydict = "(pyval \<times> pyval) list"

text \<open>Sequencing of calls that may raise: the first exception ends the computation.\<close>

definition bindE :: "error + 'a \<Rightarrow> ('a \<Rightarrow> error + 'b) \<Rightarrow> error + 'b" where
  "bindE m f = (case m of Inl e \<Rightarrow> Inl e | Inr x \<Rightarrow> f x)"

text \<open>\<open>bool(v)\<close>: None, False, 0 and the empty str, list and dict are falsy.\<close>

fun truthy :: "pyval \<Rightarrow> bool" where
  "truthy PNone = False"
| "truthy (PBool b) = b"
| "truthy (PInt n) = (n \<noteq> 0)"
| "truthy (PStr s) = (s \<noteq> [])"
| "truthy (PList xs) = (xs \<noteq> [])"
| "truthy (PDict d) = (d \<noteq> [])"

text \<open>\<open>isinstance(v, dict)\<close>.\<close>

fun is_dict :: "pyval \<Rightarrow> bool" where
  "is_dict (PDict d) = True"
| "is_dict v = False"

text \<open>Lists and dicts are unhashable; using one as a dict key raises TypeError.\<close>

fun hashable :: "pyval \<Rightarrow> bool" where
  "hashable (PList xs) = False"
| "hashable (PDict d) = False"
| "hashable v = True"

text \<open>
  Dict keys are compared with \<open>==\<close>: \<open>True == 1\<close> and \<open>False == 0\<close> (with equal hashes),
  and every other hashable value of the model equals only itself. Two keys are equal when
  \<open>norm_key\<close> maps them to the same value.
\<close>

fun norm_key :: "pyval \<Rightarrow> pyval" where
  "norm_key (PBool b) = PInt (if b then 1 else 0)"
| "norm_key v = v"

text \<open>The value stored under a key equal to \<open>k\<close>, if there is one.\<close>

fun lookup :: "(pyval \<times> pyval) list \<Rightarrow> pyval \<Rightarrow> pyval option" where
  "lookup [] k = None"
| "lookup ((a, v) # d) k = (if norm_key a = norm_key k then Some v else lookup d k)"

text \<open>
  Storing under \<open>k\<close>: an entry whose key equals \<open>k\<close> keeps its key object and its place and
  takes the new value; otherwise the pair is appended with \<open>k\<close> as it is.
\<close>

fun store :: "pyval \<Rightarrow> pyval \<Rightarrow> (pyval \<times> pyval) list \<Rightarrow> (pyval \<times> pyval) list" where
  "store k v [] = [(k, v)]"
| "store k v ((a, w) # d) = (if norm_key a = norm_key k then (a, v) # d else (a, w) # store k v d)"

text \<open>\<open>p in s\<close> on two strs is the substring test.\<close>

fun starts_with :: "string \<Rightarrow> string \<Rightarrow> bool" where
  "starts_with s [] = True"
| "starts_with [] (p # ps) = False"
| "starts_with (c # cs) (p # ps) = (c = p \<and> starts_with cs ps)"

fun substring :: "string \<Rightarrow> string \<Rightarrow> bool" where
  "substring p [] = (p = [])"
| "substring p (c # cs) = (starts_with (c # cs) p \<or> substring p cs)"

text \<open>\<open>xs[i]\<close> on a sequence: a negative index counts from the end, IndexError outside.\<close>

definition seq_index :: "'a list \<Rightarrow> int \<Rightarrow> error + 'a" where
  "seq_index xs i =
     (if 0 \<le> i \<and> i < int (length xs) then Inr (xs ! nat i)
      else if i < 0 \<and> - int (length xs) \<le> i then Inr (xs ! nat (int (length xs) + i))
      else Inl IndexError)"

text \<open>
  \<open>container[key]\<close>. A dict raises TypeError on an unhashable key and KeyError on a
  missing one; a list and a str take an int (or bool) index and raise TypeError on any
  other; None, bool and int are not subscriptable.
\<close>

fun getitem :: "pyval \<Rightarrow> pyval \<Rightarrow> error + pyval" where
  "getitem (PDict d) k =
     (if hashable k then (case lookup d k of None \<Rightarrow> Inl KeyError | Some v \<Rightarrow> Inr v)
      else Inl TypeError)"
| "getitem (PList xs) (PInt i) = seq_index xs i"
| "getitem (PList xs) (PBool b) = seq_index xs (if b then 1 else 0)"
| "getitem (PStr s) (PInt i) = bindE (seq_index s i) (\<lambda>c. Inr (PStr [c]))"
| "getitem (PStr s) (PBool b) = bindE (seq_index s (if b then 1 else 0)) (\<lambda>c. Inr (PStr [c]))"
| "getitem c k = Inl TypeError"

text \<open>
  \<open>name in container\<close> for a str \<open>name\<close>, the only form the module uses: key membership
  on a dict, element membership on a list (only a str equals a str), substring on a
  str, TypeError on None, bool and int.
\<close>

fun contains :: "pyval \<Rightarrow> string \<Rightarrow> error + bool" where
  "contains (PDict d) name = Inr (map_of d (PStr name) \<noteq> None)"
| "contains (PList xs) name = Inr (PStr name \<in> set xs)"
| "contains (PStr s) name = Inr (substring name s)"
| "contains c name = Inl TypeError"

text \<open>\<open>for i in container\<close>: the keys of a dict, the elements of a list, the characters of a str.\<close>

fun iterate :: "pyval \<Rightarrow> error + pyval list" where
  "iterate (PDict d) = Inr (map fst d)"
| "iterate (PList xs) = Inr xs"
| "iterate (PStr s) = Inr (map (\<lambda>c. PStr [c]) s)"
| "iterate c = Inl TypeError"

text \<open>
  \<open>a + b\<close>: ints add (a bool counts as 0 or 1), strs and lists concatenate, anything
  else raises TypeError.
\<close>

fun add :: "pyval \<Rightarrow> pyval \<Rightarrow> error + pyval" where
  "add (PInt a) (PInt b) = Inr (PInt (a + b))"
| "add (PInt a) (PBool b) = Inr (PInt (a + (if b then 1 else 0)))"
| "add (PBool a) (PInt b) = Inr (PInt ((if a then 1 else 0) + b))"
| "add (PBool a) (PBool b) = Inr (PInt ((if a then 1 else 0) + (if b then 1 else 0)))"
| "add (PStr a) (PStr b) = Inr (PStr (a @ b))"
| "add (PList a) (PList b) = Inr (PList (a @ b))"
| "add a b = Inl TypeError"

text \<open>
  \<open>d[k] = v\<close> on a dict the module built itself: the entry is replaced in place when the
  key is there and appended otherwise. The keys the module writes as literals are strs,
  and a str equals no other key, so \<open>dict_set\<close> is \<open>store\<close> at a str key;
  \<open>setitem\<close> is for a key that comes from the payload.
\<close>

definition dict_set :: "pydict \<Rightarrow> string \<Rightarrow> pyval \<Rightarrow> pydict" where
  "dict_set d name v = AList.update (PStr name) v d"

definition setitem :: "pydict \<Rightarrow> pyval \<Rightarrow> pyval \<Rightarrow> error + pydict" where
  "setitem d k v = (if hashable k then Inr (store k v d) else Inl TypeError)"

text \<open>\<open>d[name]\<close> on such a dict.\<close>

definition dict_get :: "pydict \<Rightarrow> string \<Rightarrow> error + pyval" where
  "dict_get d name = getitem (PDict d) (PStr name)"

text \<open>
  \<open>d.update(other)\<close>: every entry of \<open>other\<close> is stored into \<open>d\<close>, in order. The module
  passes the result of a normalizer, whose keys are the strs \<open>_copy\<close> wrote.
\<close>

definition dict_update :: "pydict \<Rightarrow> pydict \<Rightarrow> pydict" where
  "dict_update d other = fold (\<lambda>(k, v) acc. AList.update k v acc) other d"

section \<open>The field copy rule\<close>

text \<open>
  \<^verbatim>\<open>
  def _copy(self, source, target, sid, tid, unit = None):
      if sid in source and isinstance(source[sid], dict) and 'Value' in source[sid]:
          target[tid] = { 'value': source[sid]['Value'] }
          if "Unit" in source[sid]:
              target[tid]['unit'] = source[sid]['Unit']
      elif sid in source:
          target[tid] = { 'value': source[sid] }
      else:
          target[tid] = { 'value': 0 }
      if unit is not None:
          target[tid]['unit'] = unit
  \<close>
  The entry \<open>target[tid]\<close> is a fresh dict that only \<open>_copy\<close> holds, so the model builds
  it in \<open>copy_entry\<close> and stores it once.
\<close>

definition has_value :: "pyval \<Rightarrow> string \<Rightarrow> error + bool" where
  "has_value source sid =
     bindE (contains source sid) (\<lambda>present.
       if \<not> present then Inr False
       else bindE (getitem source (PStr sid)) (\<lambda>field.
         if \<not> is_dict field then Inr False else contains field ''Value''))"

definition copy_entry :: "pyval \<Rightarrow> string \<Rightarrow> error + pydict" where
  "copy_entry source sid =
     bindE (has_value source sid) (\<lambda>wrapped.
       if wrapped then
         bindE (getitem source (PStr sid)) (\<lambda>field.
         bindE (getitem field (PStr ''Value'')) (\<lambda>v.
         bindE (contains field ''Unit'') (\<lambda>has_unit.
           if has_unit then
             bindE (getitem field (PStr ''Unit'')) (\<lambda>u.
               Inr (dict_set [(PStr ''value'', v)] ''unit'' u))
           else Inr [(PStr ''value'', v)])))
       else
         bindE (contains source sid) (\<lambda>present.
           if present then
             bindE (getitem source (PStr sid)) (\<lambda>field. Inr [(PStr ''value'', field)])
           else Inr [(PStr ''value'', PInt 0)]))"

definition copy :: "pyval \<Rightarrow> pydict \<Rightarrow> string \<Rightarrow> string \<Rightarrow> string option \<Rightarrow> error + pydict" where
  "copy source target sid tid unit =
     bindE (copy_entry source sid) (\<lambda>entry.
       Inr (dict_set target tid
              (PDict (case unit of None \<Rightarrow> entry | Some u \<Rightarrow> dict_set entry ''unit'' (PStr u)))))"

text \<open>
  Every normalizer is a run of \<open>_copy\<close> calls on one source and one target. A run is a
  table of (source field, target field, fixed unit), applied from top to bottom; the
  first call that raises ends the run.
\<close>

fun copy_all :: "pyval \<Rightarrow> (string \<times> string \<times> string option) list \<Rightarrow> pydict \<Rightarrow> error + pydict" where
  "copy_all source [] target = Inr target"
| "copy_all source ((sid, tid, unit) # rest) target =
     bindE (copy source target sid tid unit) (copy_all source rest)"

text \<open>\<open>v[k1][k2]...\<close>, read from left to right.\<close>

fun getpath :: "pyval \<Rightarrow> pyval list \<Rightarrow> error + pyval" where
  "getpath v [] = Inr v"
| "getpath v (k # ks) = bindE (getitem v k) (\<lambda>w. getpath w ks)"

text \<open>A \<open>for\<close> loop over a list whose body updates a state and may raise.\<close>

fun foreach :: "('s \<Rightarrow> 'a \<Rightarrow> error + 's) \<Rightarrow> 'a list \<Rightarrow> 's \<Rightarrow> error + 's" where
  "foreach body [] s = Inr s"
| "foreach body (x # xs) s = bindE (body s x) (foreach body xs)"

text \<open>
  \<open>d[name][...] = ...\<close>: the dict stored under \<open>name\<close> is changed in place. \<open>d[name]\<close> is
  looked up first (KeyError when missing); the module only ever does this to dicts it
  stored itself.
\<close>

definition update_in :: "pydict \<Rightarrow> string \<Rightarrow> (pydict \<Rightarrow> error + pydict) \<Rightarrow> error + pydict" where
  "update_in d name f =
     bindE (dict_get d name) (\<lambda>sub.
       case sub of
         PDict s \<Rightarrow> bindE (f s) (\<lambda>s'. Inr (dict_set d name (PDict s')))
       | _ \<Rightarrow> Inl TypeError)"

section \<open>The envelope\<close>

text \<open>
  \<^verbatim>\<open>
  def _status_data(self, json):
      sensor = {}
      sensor['timestamp'] = { 'value': json['Head']['Timestamp'] }
      sensor['status'] = json['Head']['Status']
      sensor['status_code'] = { 'value': json['Head']['Status']['Code'] }
      sensor['status_reason'] = { 'value': json['Head']['Status']['Reason'] }
      sensor['status_message'] = { 'value': json['Head']['Status']['UserMessage'] }
      return sensor
  \<close>
\<close>

definition status_data :: "pyval \<Rightarrow> error + pydict" where
  "status_data json =
     bindE (getpath json [PStr ''Head'', PStr ''Timestamp'']) (\<lambda>ts.
     bindE (getpath json [PStr ''Head'', PStr ''Status'']) (\<lambda>st.
     bindE (getpath json [PStr ''Head'', PStr ''Status'', PStr ''Code'']) (\<lambda>code.
     bindE (getpath json [PStr ''Head'', PStr ''Status'', PStr ''Reason'']) (\<lambda>reason.
     bindE (getpath json [PStr ''Head'', PStr ''Status'', PStr ''UserMessage'']) (\<lambda>msg.
       Inr (dict_set (dict_set (dict_set (dict_set (dict_set []
              ''timestamp'' (PDict [(PStr ''value'', ts)]))
              ''status'' st)
              ''status_code'' (PDict [(PStr ''value'', code)]))
              ''status_reason'' (PDict [(PStr ''value'', reason)]))
              ''status_message'' (PDict [(PStr ''value'', msg)])))))))"

text \<open>
  \<^verbatim>\<open>
  def _current_data(self, url, fun):
      json = self._fetch_json(url)
      sensor = self._status_data(json)
      # break if Data is empty
      if not json['Body'] or not json['Body']['Data']:
          return sensor
      else:
          return fun(sensor, json['Body']['Data'])
  \<close>
  \<open>_fetch_json\<close> is the outside world: \<open>fetch\<close> gives, for a URL, the parsed JSON of the
  device's answer, or the exception of the transport or the parser.
\<close>

definition current_data ::
  "(string \<Rightarrow> error + pyval) \<Rightarrow> string \<Rightarrow> (pydict \<Rightarrow> pyval \<Rightarrow> error + pydict) \<Rightarrow> error + pydict" where
  "current_data fetch url normalizer =
     bindE (fetch url) (\<lambda>json.
     bindE (status_data json) (\<lambda>sensor.
     bindE (getitem json (PStr ''Body'')) (\<lambda>body.
       if \<not> truthy body then Inr sensor
       else bindE (getpath json [PStr ''Body'', PStr ''Data'']) (\<lambda>data.
         if \<not> truthy data then Inr sensor
         else bindE (getpath json [PStr ''Body'', PStr ''Data'']) (normalizer sensor)))))"

section \<open>The shared entity normalizers\<close>

definition meter_fields :: "(string \<times> string \<times> string option) list" where
  "meter_fields =
     [(''Current_AC_Phase_1'', ''current_ac_phase_1'', Some ''A''),
      (''Current_AC_Phase_2'', ''current_ac_phase_2'', Some ''A''),
      (''Current_AC_Phase_3'', ''current_ac_phase_3'', Some ''A''),
      (''EnergyReactive_VArAC_Sum_Consumed'', ''energy_reactive_ac_consumed'', Some ''Wh''),
      (''EnergyReactive_VArAC_Sum_Produced'', ''energy_reactive_ac_produced'', Some ''Wh''),
      (''EnergyReal_WAC_Minus_Absolute'', ''energy_real_ac_minus'', Some ''Wh''),
      (''EnergyReal_WAC_Plus_Absolute'', ''energy_real_ac_plus'', Some ''Wh''),
      (''EnergyReal_WAC_Sum_Consumed'', ''energy_real_consumed'', Some ''Wh''),
      (''EnergyReal_WAC_Sum_Produced'', ''energy_real_produced'', Some ''Wh''),
      (''Frequency_Phase_Average'', ''frequency_phase_average'', Some ''H''),
      (''PowerApparent_S_Phase_1'', ''power_apparent_phase_1'', Some ''W''),
      (''PowerApparent_S_Phase_2'', ''power_apparent_phase_2'', Some ''W''),
      (''PowerApparent_S_Phase_3'', ''power_apparent_phase_3'', Some ''W''),
      (''PowerApparent_S_Sum'', ''power_apparent'', Some ''W''),
      (''PowerFactor_Phase_1'', ''power_factor_phase_1'', Some ''W''),
      (''PowerFactor_Phase_2'', ''power_factor_phase_2'', Some ''W''),
      (''PowerFactor_Phase_3'', ''power_factor_phase_3'', Some ''W''),
      (''PowerFactor_Sum'', ''power_factor'', Some ''W''),
      (''PowerReactive_Q_Phase_1'', ''power_reactive_phase_1'', Some ''W''),
      (''PowerReactive_Q_Phase_2'', ''power_reactive_phase_2'', Some ''W''),
      (''PowerReactive_Q_Phase_3'', ''power_reactive_phase_3'', Some ''W''),
      (''PowerReactive_Q_Sum'', ''power_reactive'', Some ''W''),
      (''PowerReal_P_Phase_1'', ''power_real_phase_1'', Some ''W''),
      (''PowerReal_P_Phase_2'', ''power_real_phase_2'', Some ''W''),
      (''PowerReal_P_Phase_3'', ''power_real_phase_3'', Some ''W''),
      (''PowerReal_P_Sum'', ''power_real'', Some ''W''),
      (''Voltage_AC_Phase_1'', ''voltage_ac_phase_1'', Some ''V''),
      (''Voltage_AC_Phase_2'', ''voltage_ac_phase_2'', Some ''V''),
      (''Voltage_AC_Phase_3'', ''voltage_ac_phase_3'', Some ''V''),
      (''Voltage_AC_PhaseToPhase_12'', ''voltage_ac_phase_to_phase_12'', Some ''V''),
      (''Voltage_AC_PhaseToPhase_23'', ''voltage_ac_phase_to_phase_23'', Some ''V''),
      (''Voltage_AC_PhaseToPhase_31'', ''voltage_ac_phase_to_phase_31'', Some ''V''),
      (''Meter_Location_Current'', ''meter_location'', None),
      (''Enable'', ''enable'', None),
      (''Visible'', ''visible'', None)]"

definition details_fields :: "(string \<times> string \<times> string option) list" where
  "details_fields =
     [(''Manufacturer'', ''manufacturer'', None),
      (''Model'', ''model'', None),
      (''Serial'', ''serial'', None)]"

definition controller_fields :: "(string \<times> string \<times> string option) list" where
  "controller_fields =
     [(''Capacity_Maximum'', ''capacity_maximum'', Some ''Ah''),
      (''DesignedCapacity'', ''capacity_designed'', Some ''Ah''),
      (''Current_DC'', ''current_dc'', Some ''A''),
      (''Voltage_DC'', ''voltage_dc'', Some ''V''),
      (''Voltage_DC_Maximum_Cell'', ''voltage_dc_maximum_cell'', Some ''V''),
      (''Voltage_DC_Minimum_Cell'', ''voltage_dc_minimum_cell'', Some ''V''),
      (''StateOfCharge_Relative'', ''state_of_charge'', Some ''%''),
      (''Temperature_Cell'', ''temperature_cell'', Some ''C''),
      (''Enable'', ''enable'', None)]"

definition module_fields :: "(string \<times> string \<times> string option) list" where
  "module_fields =
     [(''Capacity_Maximum'', ''capacity_maximum'', Some ''Ah''),
      (''DesignedCapacity'', ''capacity_designed'', Some ''Ah''),
      (''Current_DC'', ''current_dc'', Some ''A''),
      (''Voltage_DC'', ''voltage_dc'', Some ''V''),
      (''Voltage_DC_Maximum_Cell'', ''voltage_dc_maximum_cell'', Some ''V''),
      (''Voltage_DC_Minimum_Cell'', ''voltage_dc_minimum_cell'', Some ''V''),
      (''StateOfCharge_Relative'', ''state_of_charge'', Some ''%''),
      (''Temperature_Cell'', ''temperature_cell'', Some ''C''),
      (''Temperature_Cell_Maximum'', ''temperature_cell_maximum'', Some ''C''),
      (''Temperature_Cell_Minimum'', ''temperature_cell_minimum'', Some ''C''),
      (''CycleCount_BatteryCell'', ''cycle_count_cell'', Some ''C''),
      (''Status_BatteryCell'', ''status_cell'', None),
      (''Enable'', ''enable'', None)]"

text \<open>
  \<open>_meter_data\<close>, \<open>_controller_data\<close> and \<open>_module_data\<close> have one shape: a fresh dict, the
  run of their table on \<open>data\<close>, and, \<open>if "Details" in data\<close>, the three detail fields
  from \<open>data['Details']\<close>.
\<close>

definition entity_data :: "(string \<times> string \<times> string option) list \<Rightarrow> pyval \<Rightarrow> error + pydict" where
  "entity_data fields data =
     bindE (copy_all data fields []) (\<lambda>entity.
     bindE (contains data ''Details'') (\<lambda>has_details.
       if has_details then
         bindE (getitem data (PStr ''Details'')) (\<lambda>details. copy_all details details_fields entity)
       else Inr entity))"

definition meter_data :: "pyval \<Rightarrow> error + pydict" where
  "meter_data data = entity_data meter_fields data"

definition controller_data :: "pyval \<Rightarrow> error + pydict" where
  "controller_data data = entity_data controller_fields data"

definition module_data :: "pyval \<Rightarrow> error + pydict" where
  "module_data data = entity_data module_fields data"

section \<open>The endpoint normalizers\<close>

definition power_flow_inverter_fields :: "(string \<times> string \<times> string option) list" where
  "power_flow_inverter_fields =
     [(''Battery_Mode'', ''battery_mode'', None),
      (''SOC'', ''state_of_charge'', Some ''%'')]"

definition power_flow_site_fields :: "(string \<times> string \<times> string option) list" where
  "power_flow_site_fields =
     [(''BatteryStandby'', ''battery_standby'', None),
      (''E_Day'', ''energy_day'', Some ''Wh''),
      (''E_Total'', ''energy_total'', Some ''Wh''),
      (''E_Year'', ''energy_year'', Some ''Wh''),
      (''Meter_Location'', ''meter_location'', None),
      (''Mode'', ''meter_mode'', None),
      (''P_Akku'', ''power_battery'', Some ''W''),
      (''P_Grid'', ''power_grid'', Some ''W''),
      (''P_Load'', ''power_load'', Some ''W''),
      (''P_PV'', ''power_photovoltaics'', Some ''W''),
      (''rel_Autonomy'', ''relative_autonomy'', Some ''%''),
      (''rel_SelfConsumption'', ''relative_self_consumption'', Some ''%'')]"

text \<open>
  \<^verbatim>\<open>
  site = data['Site']
  inverter = data['Inverters']['1'] # TODO: implement more inverters
  \<close>
  followed by the two copies from \<open>inverter\<close> and the twelve from \<open>site\<close>.
\<close>

definition system_power_flow :: "pydict \<Rightarrow> pyval \<Rightarrow> error + pydict" where
  "system_power_flow sensor data =
     bindE (getitem data (PStr ''Site'')) (\<lambda>site.
     bindE (getpath data [PStr ''Inverters'', PStr ''1'']) (\<lambda>inverter.
     bindE (copy_all inverter power_flow_inverter_fields sensor) (\<lambda>sensor.
       copy_all site power_flow_site_fields sensor)))"

text \<open>
  \<^verbatim>\<open>
  sensor['meters'] = { }
  for i in data:
      sensor['meters'][i] = self._meter_data(data[i])
  \<close>
  The right-hand side is evaluated before the store.
\<close>

definition system_meter_step :: "pyval \<Rightarrow> pydict \<Rightarrow> pyval \<Rightarrow> error + pydict" where
  "system_meter_step data sensor i =
     bindE (getitem data i) (\<lambda>payload.
     bindE (meter_data payload) (\<lambda>meter.
       update_in sensor ''meters'' (\<lambda>meters. setitem meters i (PDict meter))))"

definition system_meter_data :: "pydict \<Rightarrow> pyval \<Rightarrow> error + pydict" where
  "system_meter_data sensor data =
     bindE (iterate data) (\<lambda>ids.
       foreach (system_meter_step data) ids (dict_set sensor ''meters'' (PDict [])))"

text \<open>
  \<open>_system_inverter_data\<close> runs four loops of one shape, one per series:
  \<^verbatim>\<open>
  if "TOTAL_ENERGY" in data:
      for i in data['TOTAL_ENERGY']['Values']:
          sensor['inverters'][i]['energy_total'] = { 'value': data['TOTAL_ENERGY']['Values'][i], 'unit': data['TOTAL_ENERGY']['Unit'] }
          sensor['energy_total']['value'] += data['TOTAL_ENERGY']['Values'][i]
  \<close>
  They differ in the series they iterate, in the series whose \<open>Unit\<close> they read
  (\<open>TOTAL_ENERGY\<close> in the loops of \<open>YEAR_ENERGY\<close> and \<open>PAC\<close>), in the field they write,
  and in that the loop of \<open>DAY_ENERGY\<close> alone starts with
  \<open>sensor['inverters'][i] = { }\<close>. In an assignment the right-hand side is evaluated
  first, then \<open>sensor['inverters'][i]\<close>.
\<close>

definition series_step ::
  "bool \<Rightarrow> pyval \<Rightarrow> string \<Rightarrow> string \<Rightarrow> string \<Rightarrow> pydict \<Rightarrow> pyval \<Rightarrow> error + pydict" where
  "series_step create data series unit_series field sensor i =
     bindE (if create then update_in sensor ''inverters'' (\<lambda>inverters. setitem inverters i (PDict []))
            else Inr sensor) (\<lambda>sensor.
     bindE (getpath data [PStr series, PStr ''Values'', i]) (\<lambda>v.
     bindE (getpath data [PStr unit_series, PStr ''Unit'']) (\<lambda>u.
     bindE (update_in sensor ''inverters'' (\<lambda>inverters.
              bindE (getitem (PDict inverters) i) (\<lambda>sub.
                case sub of
                  PDict s \<Rightarrow>
                    setitem inverters i
                      (PDict (dict_set s field (PDict [(PStr ''value'', v), (PStr ''unit'', u)])))
                | _ \<Rightarrow> Inl TypeError))) (\<lambda>sensor.
     bindE (getpath (PDict sensor) [PStr field, PStr ''value'']) (\<lambda>current.
     bindE (getpath data [PStr series, PStr ''Values'', i]) (\<lambda>w.
     bindE (add current w) (\<lambda>total.
       update_in sensor field (\<lambda>aggregate. Inr (dict_set aggregate ''value'' total)))))))))"

definition series_loop ::
  "bool \<Rightarrow> pyval \<Rightarrow> string \<Rightarrow> string \<Rightarrow> string \<Rightarrow> pydict \<Rightarrow> error + pydict" where
  "series_loop create data series unit_series field sensor =
     bindE (contains data series) (\<lambda>present.
       if present then
         bindE (getpath data [PStr series, PStr ''Values'']) (\<lambda>vals.
         bindE (iterate vals) (\<lambda>ids.
           foreach (series_step create data series unit_series field) ids sensor))
       else Inr sensor)"

definition system_inverter_init :: "pydict \<Rightarrow> pydict" where
  "system_inverter_init sensor =
     dict_set (dict_set (dict_set (dict_set (dict_set sensor
       ''energy_day'' (PDict [(PStr ''value'', PInt 0), (PStr ''unit'', PStr ''Wh'')]))
       ''energy_total'' (PDict [(PStr ''value'', PInt 0), (PStr ''unit'', PStr ''Wh'')]))
       ''energy_year'' (PDict [(PStr ''value'', PInt 0), (PStr ''unit'', PStr ''Wh'')]))
       ''power_ac'' (PDict [(PStr ''value'', PInt 0), (PStr ''unit'', PStr ''W'')]))
       ''inverters'' (PDict [])"

definition system_inverter_data :: "pydict \<Rightarrow> pyval \<Rightarrow> error + pydict" where
  "system_inverter_data sensor data =
     bindE (series_loop True data ''DAY_ENERGY'' ''DAY_ENERGY'' ''energy_day''
              (system_inverter_init sensor)) (\<lambda>sensor.
     bindE (series_loop False data ''TOTAL_ENERGY'' ''TOTAL_ENERGY'' ''energy_total'' sensor) (\<lambda>sensor.
     bindE (series_loop False data ''YEAR_ENERGY'' ''TOTAL_ENERGY'' ''energy_year'' sensor) (\<lambda>sensor.
       series_loop False data ''PAC'' ''TOTAL_ENERGY'' ''power_ac'' sensor)))"

text \<open>\<open>sensor.update(self._meter_data(data))\<close>.\<close>

definition device_meter_data :: "pydict \<Rightarrow> pyval \<Rightarrow> error + pydict" where
  "device_meter_data sensor data =
     bindE (meter_data data) (\<lambda>meter. Inr (dict_update sensor meter))"

text \<open>
  \<^verbatim>\<open>
  if 'Controller' in data:
      controller = self._controller_data(data['Controller'])
      sensor.update(controller)
  if 'Modules' in data:
      sensor['modules'] = { }
      module_count = 0;
      for module in data['Modules']:
          sensor['modules'][module_count] = self._module_data(module)
          module_count += 1
  \<close>
  The loop's state is the bundle and the counter.
\<close>

definition storage_module_step :: "pydict \<times> int \<Rightarrow> pyval \<Rightarrow> error + pydict \<times> int" where
  "storage_module_step state module =
     (case state of (sensor, module_count) \<Rightarrow>
        bindE (module_data module) (\<lambda>m.
        bindE (update_in sensor ''modules'' (\<lambda>modules. setitem modules (PInt module_count) (PDict m)))
          (\<lambda>sensor. Inr (sensor, module_count + 1))))"

definition device_storage_data :: "pydict \<Rightarrow> pyval \<Rightarrow> error + pydict" where
  "device_storage_data sensor data =
     bindE (contains data ''Controller'') (\<lambda>has_controller.
     bindE (if has_controller then
              bindE (getitem data (PStr ''Controller'')) (\<lambda>c.
              bindE (controller_data c) (\<lambda>controller. Inr (dict_update sensor controller)))
            else Inr sensor) (\<lambda>sensor.
     bindE (contains data ''Modules'') (\<lambda>has_modules.
       if has_modules then
         bindE (getitem data (PStr ''Modules'')) (\<lambda>modules.
         bindE (iterate modules) (\<lambda>ms.
         bindE (foreach storage_module_step ms (dict_set sensor ''modules'' (PDict []), 0))
           (\<lambda>state. Inr (fst state))))
       else Inr sensor)))"

definition device_inverter_fields :: "(string \<times> string \<times> string option) list" where
  "device_inverter_fields =
     [(''DAY_ENERGY'', ''energy_day'', None),
      (''TOTAL_ENERGY'', ''energy_total'', None),
      (''YEAR_ENERGY'', ''energy_year'', None),
      (''FAC'', ''frequency_ac'', None),
      (''IAC'', ''current_ac'', None),
      (''IDC'', ''current_dc'', None),
      (''PAC'', ''power_ac'', None),
      (''UAC'', ''voltage_ac'', None),
      (''UDC'', ''voltage_dc'', None)]"

definition device_inverter_data :: "pydict \<Rightarrow> pyval \<Rightarrow> error + pydict" where
  "device_inverter_data sensor data = copy_all data device_inverter_fields sensor"

section \<open>The client\<close>

text \<open>
  \<open>template.format(args)\<close> for templates whose only replacement field is \<open>{}\<close>: each
  \<open>{}\<close> takes the next argument (IndexError when none is left), \<open>{{\<close> and \<open>}}\<close> are the
  escaped braces, and the arguments are inserted as they are. The URL templates of the
  module use nothing else; any other use of a brace is reported as ValueError here.
\<close>

fun format :: "string \<Rightarrow> string list \<Rightarrow> error + string" where
  "format [] args = Inr []"
| "format [c] args = (if c = CHR ''{'' \<or> c = CHR ''}'' then Inl ValueError else Inr [c])"
| "format (c # d # cs) args =
     (if c = CHR ''{'' \<and> d = CHR ''}'' then
        (case args of
           [] \<Rightarrow> Inl IndexError
         | a # rest \<Rightarrow> bindE (format cs rest) (\<lambda>r. Inr (a @ r)))
      else if (c = CHR ''{'' \<and> d = CHR ''{'') \<or> (c = CHR ''}'' \<and> d = CHR ''}'') then
        bindE (format cs args) (\<lambda>r. Inr (c # r))
      else if c = CHR ''{'' \<or> c = CHR ''}'' then Inl ValueError
      else bindE (format (d # cs) args) (\<lambda>r. Inr (c # r)))"

text \<open>\<open>str(n)\<close> of an int: its decimal digits, with a minus sign when negative.\<close>

fun str_nat :: "nat \<Rightarrow> string" where
  "str_nat n =
     (if n < 10 then [char_of (48 + n)]
      else str_nat (n div 10) @ [char_of (48 + n mod 10)])"

declare str_nat.simps [simp del]

definition str_int :: "int \<Rightarrow> string" where
  "str_int i = (if i < 0 then CHR ''-'' # str_nat (nat (- i)) else str_nat (nat i))"

definition URL_POWER_FLOW :: string where
  "URL_POWER_FLOW = ''{}://{}/solar_api/v1/GetPowerFlowRealtimeData.fcgi''"

definition URL_SYSTEM_METER :: string where
  "URL_SYSTEM_METER = ''{}://{}/solar_api/v1/GetMeterRealtimeData.cgi?Scope=System''"

definition URL_SYSTEM_INVERTER :: string where
  "URL_SYSTEM_INVERTER = ''{}://{}/solar_api/v1/GetInverterRealtimeData.cgi?Scope=System''"

definition URL_DEVICE_METER :: string where
  "URL_DEVICE_METER = ''{}://{}/solar_api/v1/GetMeterRealtimeData.cgi?Scope=Device&DeviceId={}''"

definition URL_DEVICE_STORAGE :: string where
  "URL_DEVICE_STORAGE = ''{}://{}/solar_api/v1/GetStorageRealtimeData.cgi?Scope=Device&DeviceId={}''"

definition URL_DEVICE_INVERTER_COMMON :: string where
  "URL_DEVICE_INVERTER_COMMON =
     ''{}://{}/solar_api/v1/GetInverterRealtimeData.cgi?Scope=Device&DeviceId={}&DataCollection=CommonInverterData''"

record fronius =
  host :: string
  timeout :: int
  protocol :: string

text \<open>\<open>Fronius.__init__(host, useHTTPS, timeout)\<close>.\<close>

definition Fronius :: "string \<Rightarrow> bool \<Rightarrow> int \<Rightarrow> fronius" where
  "Fronius h useHTTPS t =
     \<lparr>host = h, timeout = t, protocol = (if useHTTPS then ''https'' else ''http'')\<rparr>"

definition current_power_flow :: "fronius \<Rightarrow> (string \<Rightarrow> error + pyval) \<Rightarrow> error + pydict" where
  "current_power_flow self fetch =
     bindE (format URL_POWER_FLOW [protocol self, host self]) (\<lambda>url.
       current_data fetch url system_power_flow)"

definition current_system_meter_data :: "fronius \<Rightarrow> (string \<Rightarrow> error + pyval) \<Rightarrow> error + pydict" where
  "current_system_meter_data self fetch =
     bindE (format URL_SYSTEM_METER [protocol self, host self]) (\<lambda>url.
       current_data fetch url system_meter_data)"

definition current_system_inverter_data :: "fronius \<Rightarrow> (string \<Rightarrow> error + pyval) \<Rightarrow> error + pydict" where
  "current_system_inverter_data self fetch =
     bindE (format URL_SYSTEM_INVERTER [protocol self, host self]) (\<lambda>url.
       current_data fetch url system_inverter_data)"

definition current_meter_data :: "fronius \<Rightarrow> (string \<Rightarrow> error + pyval) \<Rightarrow> int \<Rightarrow> error + pydict" where
  "current_meter_data self fetch device =
     bindE (format URL_DEVICE_METER [protocol self, host self, str_int device]) (\<lambda>url.
       current_data fetch url device_meter_data)"

definition current_storage_data :: "fronius \<Rightarrow> (string \<Rightarrow> error + pyval) \<Rightarrow> int \<Rightarrow> error + pydict" where
  "current_storage_data self fetch device =
     bindE (format URL_DEVICE_STORAGE [protocol self, host self, str_int device]) (\<lambda>url.
       current_data fetch url device_storage_data)"

definition current_inverter_data :: "fronius \<Rightarrow> (string \<Rightarrow> error + pyval) \<Rightarrow> int \<Rightarrow> error + pydict" where
  "current_inverter_data self fetch device =
     bindE (format URL_DEVICE_INVERTER_COMMON [protocol self, host self, str_int device]) (\<lambda>url.
       current_data fetch url device_inverter_data)"

section \<open>Notions used to state the properties\<close>

text \<open>
  The value found in a document under a path of keys through nested mappings; \<open>None\<close>
  when a key on the way is absent, which includes that the value reached there is no
  mapping at all.
\<close>

fun field_at :: "pyval \<Rightarrow> string list \<Rightarrow> pyval option" where
  "field_at v [] = Some v"
| "field_at (PDict d) (k # ks) = (case map_of d (PStr k) of None \<Rightarrow> None | Some w \<Rightarrow> field_at w ks)"
| "field_at v (k # ks) = None"

text \<open>A device that answers every URL with the same parsed document.\<close>

definition answering :: "pyval \<Rightarrow> string \<Rightarrow> error + pyval" where
  "answering json url = Inr json"

text \<open>A device whose every request fails with the same exception.\<close>

definition failing :: "error \<Rightarrow> string \<Rightarrow> error + pyval" where
  "failing e url = Inl e"

text \<open>The number a string of decimal digits denotes.\<close>

definition decimal :: "string \<Rightarrow> nat" where
  "decimal s = foldl (\<lambda>n c. 10 * n + (of_char c - 48)) 0 s"

text \<open>The five keys that \<open>_status_data\<close> writes.\<close>

definition header_keys :: "pyval set" where
  "header_keys = PStr ` {''timestamp'', ''status'', ''status_code'', ''status_reason'', ''status_message''}"

section \<open>Properties\<close>

lemma bindE_Inr [simp]: "bindE (Inr x) f = f x"
  by (simp add: bindE_def)

lemma bindE_Inl [simp]: "bindE (Inl e) f = Inl e"
  by (simp add: bindE_def)

lemma bindE_eq_Inr: "bindE m f = Inr y \<longleftrightarrow> (\<exists>x. m = Inr x \<and> f x = Inr y)"
  by (cases m) auto

lemma norm_key_PStr: "norm_key a = PStr s \<longleftrightarrow> a = PStr s"
  by (cases a) auto

lemma lookup_PStr [simp]: "lookup d (PStr s) = map_of d (PStr s)"
  by (induction d) (auto simp: norm_key_PStr)

lemma store_PStr [simp]: "store (PStr s) v d = AList.update (PStr s) v d"
  by (induction d) (auto simp: norm_key_PStr)

subsection \<open>The field copy rule\<close>

text \<open>
  C1. For a source that is a mapping, \<open>_copy\<close> never raises and stores under the target
  field id an entry made by the four steps: the \<open>value\<close> is \<open>source[sid]['Value']\<close> when
  the source field is a mapping with a \<open>Value\<close> key, \<open>source[sid]\<close> when the field is there
  in another shape, and 0 when it is absent; the \<open>unit\<close> is the fixed unit whenever one is
  given, else the field's \<open>Unit\<close> in the first case when it has one, else there is no unit.
\<close>

theorem copy_four_step_rule:
  "copy (PDict src) tgt sid tid unit =
     Inr (AList.update (PStr tid)
       (PDict
         (let (v, src_unit) =
            (case map_of src (PStr sid) of
               None \<Rightarrow> (PInt 0, None)
             | Some field \<Rightarrow>
                 (case field of
                    PDict f \<Rightarrow>
                      (case map_of f (PStr ''Value'') of
                         Some x \<Rightarrow> (x, map_of f (PStr ''Unit''))
                       | None \<Rightarrow> (field, None))
                  | _ \<Rightarrow> (field, None)))
          in (PStr ''value'', v) #
               (case unit of
                  Some u \<Rightarrow> [(PStr ''unit'', PStr u)]
                | None \<Rightarrow> (case src_unit of Some su \<Rightarrow> [(PStr ''unit'', su)] | None \<Rightarrow> [])))) tgt)"
  by (auto simp: copy_def copy_entry_def has_value_def dict_set_def split: option.splits pyval.splits)

theorem copy_four_step_rule_witness:
  "copy (PDict [(PStr ''X'', PDict [(PStr ''Value'', PInt 5), (PStr ''Unit'', PStr ''W'')])]) [] ''X'' ''y'' None
     = Inr [(PStr ''y'', PDict [(PStr ''value'', PInt 5), (PStr ''unit'', PStr ''W'')])]
   \<and> copy (PDict [(PStr ''X'', PInt 7)]) [] ''X'' ''y'' None
     = Inr [(PStr ''y'', PDict [(PStr ''value'', PInt 7)])]
   \<and> copy (PDict []) [] ''X'' ''y'' None
     = Inr [(PStr ''y'', PDict [(PStr ''value'', PInt 0)])]
   \<and> copy (PDict [(PStr ''X'', PDict [(PStr ''Value'', PInt 5), (PStr ''Unit'', PStr ''W'')])]) [] ''X'' ''y'' (Some ''kW'')
     = Inr [(PStr ''y'', PDict [(PStr ''value'', PInt 5), (PStr ''unit'', PStr ''kW'')])]"
  by (simp add: copy_four_step_rule)

subsection \<open>Formatting the URL of the device meter endpoint\<close>

lemma format_device_meter:
  "format URL_DEVICE_METER [p, h, d] =
     Inr (p @ ''://'' @ h @ ''/solar_api/v1/GetMeterRealtimeData.cgi?Scope=Device&DeviceId='' @ d)"
  by (simp add: URL_DEVICE_METER_def)

lemma starts_with_append: "starts_with (p @ b) p"
  by (induction p) auto

lemma substring_here: "substring p (p @ b)"
  by (cases "p @ b") (use starts_with_append [of p b] in auto)

lemma substring_append: "substring p (a @ p @ b)"
  by (induction a) (auto simp: substring_here)

subsection \<open>The envelope header\<close>

lemma map_of_dict_set: "map_of (dict_set d n v) = (map_of d)(PStr n \<mapsto> v)"
  by (simp add: dict_set_def update_conv')

lemma getpath_field_at:
  "getpath v (map PStr ks) = (case field_at v ks of Some w \<Rightarrow> Inr w | None \<Rightarrow> getpath v (map PStr ks))"
  by (induction v ks rule: field_at.induct) (auto split: option.splits)

lemma getpath_Inr_iff: "getpath v (map PStr ks) = Inr w \<longleftrightarrow> field_at v ks = Some w"
  by (induction v ks rule: field_at.induct) (auto split: option.splits)

lemma getpath_Inl: "getpath v (map PStr ks) = Inl e \<Longrightarrow> e = KeyError \<or> e = TypeError"
  by (induction v ks rule: field_at.induct) (auto split: option.splits)

lemma status_data_Inr:
  assumes "field_at json [''Head'', ''Timestamp''] = Some ts"
    and "field_at json [''Head'', ''Status''] = Some st"
    and "field_at json [''Head'', ''Status'', ''Code''] = Some code"
    and "field_at json [''Head'', ''Status'', ''Reason''] = Some reason"
    and "field_at json [''Head'', ''Status'', ''UserMessage''] = Some msg"
  shows "status_data json =
     Inr [(PStr ''timestamp'', PDict [(PStr ''value'', ts)]),
          (PStr ''status'', st),
          (PStr ''status_code'', PDict [(PStr ''value'', code)]),
          (PStr ''status_reason'', PDict [(PStr ''value'', reason)]),
          (PStr ''status_message'', PDict [(PStr ''value'', msg)])]"
proof -
  have "getpath json (map PStr [''Head'', ''Timestamp'']) = Inr ts"
    "getpath json (map PStr [''Head'', ''Status'']) = Inr st"
    "getpath json (map PStr [''Head'', ''Status'', ''Code'']) = Inr code"
    "getpath json (map PStr [''Head'', ''Status'', ''Reason'']) = Inr reason"
    "getpath json (map PStr [''Head'', ''Status'', ''UserMessage'']) = Inr msg"
    using assms by (simp_all only: getpath_Inr_iff)
  then show ?thesis
    unfolding status_data_def by (simp add: dict_set_def)
qed

lemma status_data_Inl:
  assumes "status_data json = Inl e"
  shows "(e = KeyError \<or> e = TypeError) \<and>
     (field_at json [''Head'', ''Timestamp''] = None \<or> field_at json [''Head'', ''Status''] = None \<or>
      field_at json [''Head'', ''Status'', ''Code''] = None \<or>
      field_at json [''Head'', ''Status'', ''Reason''] = None \<or>
      field_at json [''Head'', ''Status'', ''UserMessage''] = None)"
proof -
  define g where "g ks = getpath json (map PStr ks)" for ks
  have g: "g ks = Inl e' \<Longrightarrow> (e' = KeyError \<or> e' = TypeError) \<and> field_at json ks = None" for ks e'
    using getpath_Inl [of json ks e'] getpath_Inr_iff [of json ks] unfolding g_def
    by (cases "field_at json ks") auto
  have "bindE (g [''Head'', ''Timestamp'']) (\<lambda>ts.
     bindE (g [''Head'', ''Status'']) (\<lambda>st.
     bindE (g [''Head'', ''Status'', ''Code'']) (\<lambda>code.
     bindE (g [''Head'', ''Status'', ''Reason'']) (\<lambda>reason.
     bindE (g [''Head'', ''Status'', ''UserMessage'']) (\<lambda>msg. Inr ()))))) = Inl e"
    using assms unfolding status_data_def g_def
    by (auto simp: bindE_def split: sum.splits)
  then show ?thesis
    using g by (auto simp: bindE_def split: sum.splits)
qed

lemma copy_map_of:
  "copy s t sid tid u = Inr t' \<Longrightarrow> \<exists>e. map_of t' = (map_of t)(PStr tid \<mapsto> PDict e)"
  by (auto simp: copy_def bindE_eq_Inr map_of_dict_set)

lemma copy_all_frame:
  "copy_all s tab t = Inr t' \<Longrightarrow> k \<notin> (\<lambda>(sid, tid, u). PStr tid) ` set tab \<Longrightarrow> map_of t' k = map_of t k"
proof (induction s tab t rule: copy_all.induct)
  case (1 source target)
  then show ?case by simp
next
  case (2 source sid tid unit rest target)
  from "2.prems"(1) obtain t1 where c: "copy source target sid tid unit = Inr t1"
    and r: "copy_all source rest t1 = Inr t'"
    by (auto simp: bindE_eq_Inr)
  from copy_map_of [OF c] "2.prems"(2) have "map_of t1 k = map_of target k" by auto
  moreover have "map_of t' k = map_of t1 k"
    using "2.IH" [OF r] "2.prems"(2) by auto
  ultimately show ?case by simp
qed

lemma copy_all_keys:
  "copy_all s tab t = Inr t' \<Longrightarrow> fst ` set t' = fst ` set t \<union> (\<lambda>(sid, tid, u). PStr tid) ` set tab"
proof (induction s tab t rule: copy_all.induct)
  case (1 source target)
  then show ?case by simp
next
  case (2 source sid tid unit rest target)
  from "2.prems"(1) obtain t1 where c: "copy source target sid tid unit = Inr t1"
    and r: "copy_all source rest t1 = Inr t'"
    by (auto simp: bindE_eq_Inr)
  from c obtain e where "t1 = AList.update (PStr tid) (PDict e) target"
    by (auto simp: copy_def bindE_eq_Inr dict_set_def)
  then have "fst ` set t1 = insert (PStr tid) (fst ` set target)"
    by (simp add: dom_update)
  with "2.IH" [OF r] show ?case by auto
qed

lemma dict_update_frame:
  "k \<notin> fst ` set other \<Longrightarrow> map_of (dict_update d other) k = map_of d k"
  unfolding dict_update_def
  by (induction other arbitrary: d) (auto simp: update_conv')

lemma update_in_frame:
  "update_in d n f = Inr d' \<Longrightarrow> k \<noteq> PStr n \<Longrightarrow> map_of d' k = map_of d k"
proof -
  assume a: "update_in d n f = Inr d'" and k: "k \<noteq> PStr n"
  from a obtain sub where sub: "dict_get d n = Inr sub"
    and r: "(case sub of PDict s \<Rightarrow> bindE (f s) (\<lambda>s'. Inr (dict_set d n (PDict s'))) | _ \<Rightarrow> Inl TypeError) = Inr d'"
    by (auto simp: update_in_def bindE_eq_Inr)
  from r obtain s s' where "d' = dict_set d n (PDict s')"
    by (cases sub) (auto simp: bindE_eq_Inr)
  with k show ?thesis by (simp add: map_of_dict_set)
qed

lemma foreach_preserves:
  assumes "\<And>s x s'. body s x = Inr s' \<Longrightarrow> g s' = g s"
  shows "foreach body xs s = Inr s' \<Longrightarrow> g s' = g s"
proof (induction xs arbitrary: s)
  case Nil
  then show ?case by simp
next
  case (Cons x xs)
  then obtain s1 where "body s x = Inr s1" "foreach body xs s1 = Inr s'"
    by (auto simp: bindE_eq_Inr)
  with Cons.IH assms show ?case by metis
qed

lemma entity_data_keys:
  assumes "entity_data tab data = Inr e"
  shows "fst ` set e \<subseteq> (\<lambda>(sid, tid, u). PStr tid) ` (set tab \<union> set details_fields)"
proof -
  from assms obtain e0 hd where e0: "copy_all data tab [] = Inr e0"
    and r: "(if hd then bindE (getitem data (PStr ''Details''))
               (\<lambda>details. copy_all details details_fields e0) else Inr e0) = Inr e"
    by (auto simp: entity_data_def bindE_eq_Inr)
  have k0: "fst ` set e0 = (\<lambda>(sid, tid, u). PStr tid) ` set tab"
    using copy_all_keys [OF e0] by simp
  show ?thesis
  proof (cases hd)
    case True
    with r obtain details where "copy_all details details_fields e0 = Inr e"
      by (auto simp: bindE_eq_Inr)
    from copy_all_keys [OF this] k0 show ?thesis by (simp add: image_Un)
  next
    case False
    with r k0 show ?thesis by (auto simp: image_Un)
  qed
qed

lemma system_power_flow_frame:
  "system_power_flow sensor data = Inr b \<Longrightarrow> k \<in> header_keys \<Longrightarrow> map_of b k = map_of sensor k"
proof -
  assume a: "system_power_flow sensor data = Inr b" and k: "k \<in> header_keys"
  from a obtain site inverter s1 where
    "copy_all inverter power_flow_inverter_fields sensor = Inr s1"
    "copy_all site power_flow_site_fields s1 = Inr b"
    by (auto simp: system_power_flow_def bindE_eq_Inr)
  moreover have "k \<notin> (\<lambda>(sid, tid, u). PStr tid) ` set power_flow_inverter_fields"
    "k \<notin> (\<lambda>(sid, tid, u). PStr tid) ` set power_flow_site_fields"
    using k by (auto simp: header_keys_def power_flow_inverter_fields_def power_flow_site_fields_def)
  ultimately show ?thesis
    using copy_all_frame by metis
qed

lemma device_inverter_data_frame:
  "device_inverter_data sensor data = Inr b \<Longrightarrow> k \<in> header_keys \<Longrightarrow> map_of b k = map_of sensor k"
  unfolding device_inverter_data_def
  by (erule copy_all_frame) (auto simp: header_keys_def device_inverter_fields_def)

lemma device_meter_data_frame:
  "device_meter_data sensor data = Inr b \<Longrightarrow> k \<in> header_keys \<Longrightarrow> map_of b k = map_of sensor k"
proof -
  assume a: "device_meter_data sensor data = Inr b" and k: "k \<in> header_keys"
  from a obtain m where m: "meter_data data = Inr m" and b: "b = dict_update sensor m"
    by (auto simp: device_meter_data_def bindE_eq_Inr)
  have "k \<notin> (\<lambda>(sid, tid, u). PStr tid) ` (set meter_fields \<union> set details_fields)"
    using k by (auto simp: header_keys_def meter_fields_def details_fields_def)
  with entity_data_keys [OF m [unfolded meter_data_def]] have "k \<notin> fst ` set m" by blast
  then show ?thesis by (simp add: b dict_update_frame)
qed

lemma system_meter_data_frame:
  "system_meter_data sensor data = Inr b \<Longrightarrow> k \<in> header_keys \<Longrightarrow> map_of b k = map_of sensor k"
proof -
  assume a: "system_meter_data sensor data = Inr b" and k: "k \<in> header_keys"
  have k': "k \<noteq> PStr ''meters''" using k by (auto simp: header_keys_def)
  from a obtain ids where
    f: "foreach (system_meter_step data) ids (dict_set sensor ''meters'' (PDict [])) = Inr b"
    by (auto simp: system_meter_data_def bindE_eq_Inr)
  have "map_of b k = map_of (dict_set sensor ''meters'' (PDict [])) k"
    by (rule foreach_preserves [where g = "\<lambda>s. map_of s k", OF _ f])
       (auto simp: system_meter_step_def bindE_eq_Inr intro: update_in_frame [OF _ k'])
  then show ?thesis using k' by (simp add: map_of_dict_set)
qed

lemma device_storage_data_frame:
  "device_storage_data sensor data = Inr b \<Longrightarrow> k \<in> header_keys \<Longrightarrow> map_of b k = map_of sensor k"
proof -
  assume a: "device_storage_data sensor data = Inr b" and k: "k \<in> header_keys"
  have k': "k \<noteq> PStr ''modules''" using k by (auto simp: header_keys_def)
  have kc: "k \<notin> (\<lambda>(sid, tid, u). PStr tid) ` (set controller_fields \<union> set details_fields)"
    using k by (auto simp: header_keys_def controller_fields_def details_fields_def)
  from a obtain hc s1 hm where
    s1: "(if hc then bindE (getitem data (PStr ''Controller'')) (\<lambda>c.
              bindE (controller_data c) (\<lambda>controller. Inr (dict_update sensor controller)))
          else Inr sensor) = Inr s1"
    and rest: "(if hm then
         bindE (getitem data (PStr ''Modules'')) (\<lambda>modules.
         bindE (iterate modules) (\<lambda>ms.
         bindE (foreach storage_module_step ms (dict_set s1 ''modules'' (PDict []), 0))
           (\<lambda>state. Inr (fst state))))
       else Inr s1) = Inr b"
    by (auto simp: device_storage_data_def bindE_eq_Inr)
  have 1: "map_of s1 k = map_of sensor k"
  proof (cases hc)
    case True
    with s1 obtain c c' where c: "controller_data c = Inr c'" and s: "s1 = dict_update sensor c'"
      by (auto simp: bindE_eq_Inr)
    from entity_data_keys [OF c [unfolded controller_data_def]] kc have "k \<notin> fst ` set c'" by blast
    then show ?thesis by (simp add: s dict_update_frame)
  next
    case False
    with s1 show ?thesis by simp
  qed
  have 2: "map_of b k = map_of s1 k"
  proof (cases hm)
    case True
    with rest obtain ms st where
      f: "foreach storage_module_step ms (dict_set s1 ''modules'' (PDict []), 0) = Inr st"
      and b: "b = fst st"
      by (auto simp: bindE_eq_Inr)
    have "map_of (fst st) k = map_of (fst (dict_set s1 ''modules'' (PDict []), 0::int)) k"
      by (rule foreach_preserves [where g = "\<lambda>s. map_of (fst s) k", OF _ f])
         (auto simp: storage_module_step_def bindE_eq_Inr intro: update_in_frame [OF _ k'])
    then show ?thesis using k' by (simp add: b map_of_dict_set)
  next
    case False
    with rest show ?thesis by simp
  qed
  from 1 2 show ?thesis by simp
qed

lemma series_step_frame:
  assumes "series_step create data series unit_series field sensor i = Inr s'"
    and k: "k \<noteq> PStr ''inverters''" "k \<noteq> PStr field"
  shows "map_of s' k = map_of sensor k"
proof -
  from assms(1) obtain s1 s2 f3 where
    1: "(if create then update_in sensor ''inverters'' (\<lambda>inverters. setitem inverters i (PDict []))
         else Inr sensor) = Inr s1"
    and 2: "update_in s1 ''inverters'' f3 = Inr s2"
    and 3: "\<exists>f. update_in s2 field f = Inr s'"
    unfolding series_step_def bindE_eq_Inr by blast
  from 1 k(1) have "map_of s1 k = map_of sensor k"
    by (auto split: if_splits dest: update_in_frame)
  moreover from 2 k(1) have "map_of s2 k = map_of s1 k" by (rule update_in_frame)
  moreover from 3 k(2) have "map_of s' k = map_of s2 k" by (auto dest: update_in_frame)
  ultimately show ?thesis by simp
qed

lemma series_loop_frame:
  assumes "series_loop create data series unit_series field sensor = Inr s'"
    and k: "k \<noteq> PStr ''inverters''" "k \<noteq> PStr field"
  shows "map_of s' k = map_of sensor k"
proof -
  from assms(1) consider "s' = sensor"
    | ids where "foreach (series_step create data series unit_series field) ids sensor = Inr s'"
    by (auto simp: series_loop_def bindE_eq_Inr split: if_splits)
  then show ?thesis
  proof cases
    case 1
    then show ?thesis by simp
  next
    case 2
    show ?thesis
      by (rule foreach_preserves [where g = "\<lambda>s. map_of s k", OF _ 2])
         (rule series_step_frame [OF _ k])
  qed
qed

lemma system_inverter_data_frame:
  assumes "system_inverter_data sensor data = Inr b" and k: "k \<in> header_keys"
  shows "map_of b k = map_of sensor k"
proof -
  have ks: "k \<noteq> PStr ''inverters''" "k \<noteq> PStr ''energy_day''" "k \<noteq> PStr ''energy_total''"
    "k \<noteq> PStr ''energy_year''" "k \<noteq> PStr ''power_ac''"
    using k by (auto simp: header_keys_def)
  from assms(1) obtain s1 s2 s3 where
    "series_loop True data ''DAY_ENERGY'' ''DAY_ENERGY'' ''energy_day'' (system_inverter_init sensor) = Inr s1"
    "series_loop False data ''TOTAL_ENERGY'' ''TOTAL_ENERGY'' ''energy_total'' s1 = Inr s2"
    "series_loop False data ''YEAR_ENERGY'' ''TOTAL_ENERGY'' ''energy_year'' s2 = Inr s3"
    "series_loop False data ''PAC'' ''TOTAL_ENERGY'' ''power_ac'' s3 = Inr b"
    by (auto simp: system_inverter_data_def bindE_eq_Inr)
  then have "map_of b k = map_of (system_inverter_init sensor) k"
    using ks by (simp add: series_loop_frame)
  also have "\<dots> = map_of sensor k"
    using ks by (simp add: system_inverter_init_def map_of_dict_set)
  finally show ?thesis .
qed

lemma normalizers_frame:
  assumes "normalizer \<in> {system_power_flow, system_meter_data, system_inverter_data,
                          device_meter_data, device_storage_data, device_inverter_data}"
    and r: "normalizer sensor data = Inr b" and k: "k \<in> header_keys"
  shows "map_of b k = map_of sensor k"
proof -
  from assms(1) consider "normalizer = system_power_flow" | "normalizer = system_meter_data"
    | "normalizer = system_inverter_data" | "normalizer = device_meter_data"
    | "normalizer = device_storage_data" | "normalizer = device_inverter_data"
    by blast
  then show ?thesis
  proof cases
    case 1 with r k show ?thesis using system_power_flow_frame [of sensor data b k] by simp
  next
    case 2 with r k show ?thesis using system_meter_data_frame [of sensor data b k] by simp
  next
    case 3 with r k show ?thesis using system_inverter_data_frame [of sensor data b k] by simp
  next
    case 4 with r k show ?thesis using device_meter_data_frame [of sensor data b k] by simp
  next
    case 5 with r k show ?thesis using device_storage_data_frame [of sensor data b k] by simp
  next
    case 6 with r k show ?thesis using device_inverter_data_frame [of sensor data b k] by simp
  qed
qed

lemma status_data_Inr_D:
  assumes "status_data json = Inr h"
  shows "\<exists>ts st code reason msg.
      field_at json [''Head'', ''Timestamp''] = Some ts \<and>
      field_at json [''Head'', ''Status''] = Some st \<and>
      field_at json [''Head'', ''Status'', ''Code''] = Some code \<and>
      field_at json [''Head'', ''Status'', ''Reason''] = Some reason \<and>
      field_at json [''Head'', ''Status'', ''UserMessage''] = Some msg"
proof -
  define g where "g ks = getpath json (map PStr ks)" for ks
  have g: "g ks = Inr w \<Longrightarrow> field_at json ks = Some w" for ks w
    unfolding g_def by (simp only: getpath_Inr_iff)
  have "bindE (g [''Head'', ''Timestamp'']) (\<lambda>ts.
     bindE (g [''Head'', ''Status'']) (\<lambda>st.
     bindE (g [''Head'', ''Status'', ''Code'']) (\<lambda>code.
     bindE (g [''Head'', ''Status'', ''Reason'']) (\<lambda>reason.
     bindE (g [''Head'', ''Status'', ''UserMessage'']) (\<lambda>msg. Inr ()))))) = Inr ()"
    using assms unfolding status_data_def g_def
    by (auto simp: bindE_def split: sum.splits)
  then obtain ts st code reason msg where
    "g [''Head'', ''Timestamp''] = Inr ts" "g [''Head'', ''Status''] = Inr st"
    "g [''Head'', ''Status'', ''Code''] = Inr code" "g [''Head'', ''Status'', ''Reason''] = Inr reason"
    "g [''Head'', ''Status'', ''UserMessage''] = Inr msg"
    by (auto simp: bindE_def split: sum.splits)
  then show ?thesis using g by blast
qed

lemma current_data_Inr:
  assumes "fetch url = Inr json" and "current_data fetch url normalizer = Inr b"
  obtains h where "status_data json = Inr h" and "b = h \<or> (\<exists>data. normalizer h data = Inr b)"
  using assms by (auto simp: current_data_def bindE_eq_Inr split: if_splits)

text \<open>
  C3. For each of the six endpoint normalizers and every parsed response: \<open>_status_data\<close>
  raises exactly when \<open>Head\<close> or one of \<open>Timestamp\<close>, \<open>Status\<close>, \<open>Status.Code\<close>,
  \<open>Status.Reason\<close>, \<open>Status.UserMessage\<close> is absent (a value that is no mapping has no
  keys); what it raises is a KeyError or a TypeError, and the endpoint operation raises
  the same; and every bundle an endpoint operation returns holds \<open>timestamp\<close>, \<open>status\<close>,
  \<open>status_code\<close>, \<open>status_reason\<close> and \<open>status_message\<close> with the values of the
  response's \<open>Head\<close>, the \<open>Status\<close> object itself under \<open>status\<close>.
\<close>

theorem header_fields_copied:
  assumes "normalizer \<in> {system_power_flow, system_meter_data, system_inverter_data,
                          device_meter_data, device_storage_data, device_inverter_data}"
    and "fetch url = Inr json"
  shows
    "((\<exists>e. status_data json = Inl e) \<longleftrightarrow>
        field_at json [''Head''] = None \<or>
        field_at json [''Head'', ''Timestamp''] = None \<or>
        field_at json [''Head'', ''Status''] = None \<or>
        field_at json [''Head'', ''Status'', ''Code''] = None \<or>
        field_at json [''Head'', ''Status'', ''Reason''] = None \<or>
        field_at json [''Head'', ''Status'', ''UserMessage''] = None)
     \<and> (\<forall>e. status_data json = Inl e \<longrightarrow>
           (e = KeyError \<or> e = TypeError) \<and> current_data fetch url normalizer = Inl e)
     \<and> (\<forall>b. current_data fetch url normalizer = Inr b \<longrightarrow>
           (\<exists>ts st code reason msg.
              field_at json [''Head'', ''Timestamp''] = Some ts \<and>
              field_at json [''Head'', ''Status''] = Some st \<and>
              field_at json [''Head'', ''Status'', ''Code''] = Some code \<and>
              field_at json [''Head'', ''Status'', ''Reason''] = Some reason \<and>
              field_at json [''Head'', ''Status'', ''UserMessage''] = Some msg \<and>
              map_of b (PStr ''timestamp'') = Some (PDict [(PStr ''value'', ts)]) \<and>
              map_of b (PStr ''status'') = Some st \<and>
              map_of b (PStr ''status_code'') = Some (PDict [(PStr ''value'', code)]) \<and>
              map_of b (PStr ''status_reason'') = Some (PDict [(PStr ''value'', reason)]) \<and>
              map_of b (PStr ''status_message'') = Some (PDict [(PStr ''value'', msg)])))"
proof (intro conjI allI impI)
  have head: "field_at json [''Head''] = None \<Longrightarrow> field_at json [''Head'', ''Timestamp''] = None"
    by (cases json) (auto split: option.splits)
  show "(\<exists>e. status_data json = Inl e) \<longleftrightarrow>
        field_at json [''Head''] = None \<or>
        field_at json [''Head'', ''Timestamp''] = None \<or>
        field_at json [''Head'', ''Status''] = None \<or>
        field_at json [''Head'', ''Status'', ''Code''] = None \<or>
        field_at json [''Head'', ''Status'', ''Reason''] = None \<or>
        field_at json [''Head'', ''Status'', ''UserMessage''] = None" (is "?L \<longleftrightarrow> ?R")
  proof
    assume ?L
    then obtain e where "status_data json = Inl e" by blast
    from status_data_Inl [OF this]
    have "field_at json [''Head'', ''Timestamp''] = None \<or>
        field_at json [''Head'', ''Status''] = None \<or>
        field_at json [''Head'', ''Status'', ''Code''] = None \<or>
        field_at json [''Head'', ''Status'', ''Reason''] = None \<or>
        field_at json [''Head'', ''Status'', ''UserMessage''] = None"
      by (rule conjunct2)
    then show ?R by (rule disjI2)
  next
    assume r: ?R
    show ?L
    proof (cases "status_data json")
      case (Inl e)
      then show ?thesis by blast
    next
      case (Inr h)
      from status_data_Inr_D [OF this] obtain ts st code reason msg where
        "field_at json [''Head'', ''Timestamp''] = Some ts"
        "field_at json [''Head'', ''Status''] = Some st"
        "field_at json [''Head'', ''Status'', ''Code''] = Some code"
        "field_at json [''Head'', ''Status'', ''Reason''] = Some reason"
        "field_at json [''Head'', ''Status'', ''UserMessage''] = Some msg"
        by blast
      with r head show ?thesis by auto
    qed
  qed
next
  fix e assume e: "status_data json = Inl e"
  then show "e = KeyError \<or> e = TypeError" using status_data_Inl by blast
  from e assms(2) show "current_data fetch url normalizer = Inl e"
    by (simp add: current_data_def)
next
  fix b assume b: "current_data fetch url normalizer = Inr b"
  from assms(2) b obtain h where h: "status_data json = Inr h"
    and bh: "b = h \<or> (\<exists>data. normalizer h data = Inr b)"
    by (rule current_data_Inr)
  from status_data_Inr_D [OF h] obtain ts st code reason msg where
    f: "field_at json [''Head'', ''Timestamp''] = Some ts"
    "field_at json [''Head'', ''Status''] = Some st"
    "field_at json [''Head'', ''Status'', ''Code''] = Some code"
    "field_at json [''Head'', ''Status'', ''Reason''] = Some reason"
    "field_at json [''Head'', ''Status'', ''UserMessage''] = Some msg"
    by blast
  from status_data_Inr [OF f] h have hv: "h =
     [(PStr ''timestamp'', PDict [(PStr ''value'', ts)]),
      (PStr ''status'', st),
      (PStr ''status_code'', PDict [(PStr ''value'', code)]),
      (PStr ''status_reason'', PDict [(PStr ''value'', reason)]),
      (PStr ''status_message'', PDict [(PStr ''value'', msg)])]" by simp
  have keep: "k \<in> header_keys \<Longrightarrow> map_of b k = map_of h k" for k
    using bh normalizers_frame [OF assms(1)] by auto
  have "map_of b (PStr ''timestamp'') = Some (PDict [(PStr ''value'', ts)])"
    "map_of b (PStr ''status'') = Some st"
    "map_of b (PStr ''status_code'') = Some (PDict [(PStr ''value'', code)])"
    "map_of b (PStr ''status_reason'') = Some (PDict [(PStr ''value'', reason)])"
    "map_of b (PStr ''status_message'') = Some (PDict [(PStr ''value'', msg)])"
    by (simp_all add: keep header_keys_def hv)
  with f show "\<exists>ts st code reason msg.
              field_at json [''Head'', ''Timestamp''] = Some ts \<and>
              field_at json [''Head'', ''Status''] = Some st \<and>
              field_at json [''Head'', ''Status'', ''Code''] = Some code \<and>
              field_at json [''Head'', ''Status'', ''Reason''] = Some reason \<and>
              field_at json [''Head'', ''Status'', ''UserMessage''] = Some msg \<and>
              map_of b (PStr ''timestamp'') = Some (PDict [(PStr ''value'', ts)]) \<and>
              map_of b (PStr ''status'') = Some st \<and>
              map_of b (PStr ''status_code'') = Some (PDict [(PStr ''value'', code)]) \<and>
              map_of b (PStr ''status_reason'') = Some (PDict [(PStr ''value'', reason)]) \<and>
              map_of b (PStr ''status_message'') = Some (PDict [(PStr ''value'', msg)])"
    by blast
qed

theorem header_fields_copied_witness:
  "device_inverter_data \<in> {system_power_flow, system_meter_data, system_inverter_data,
       device_meter_data, device_storage_data, device_inverter_data}
   \<and> answering (PDict
        [(PStr ''Head'', PDict [(PStr ''Timestamp'', PStr ''2019-06-01T12:00:00+02:00''),
           (PStr ''Status'', PDict [(PStr ''Code'', PInt 0), (PStr ''Reason'', PStr ''''),
              (PStr ''UserMessage'', PStr '''')])]),
         (PStr ''Body'', PDict [(PStr ''Data'',
            PDict [(PStr ''PAC'', PDict [(PStr ''Value'', PInt 5), (PStr ''Unit'', PStr ''W'')])])])])
        ''u'' \<noteq> Inl URLError
   \<and> (\<exists>b. current_data (answering (PDict
        [(PStr ''Head'', PDict [(PStr ''Timestamp'', PStr ''2019-06-01T12:00:00+02:00''),
           (PStr ''Status'', PDict [(PStr ''Code'', PInt 0), (PStr ''Reason'', PStr ''''),
              (PStr ''UserMessage'', PStr '''')])]),
         (PStr ''Body'', PDict [(PStr ''Data'',
            PDict [(PStr ''PAC'', PDict [(PStr ''Value'', PInt 5), (PStr ''Unit'', PStr ''W'')])])])]))
        ''u'' device_inverter_data = Inr b
      \<and> map_of b (PStr ''power_ac'') = Some (PDict [(PStr ''value'', PInt 5), (PStr ''unit'', PStr ''W'')])
      \<and> map_of b (PStr ''timestamp'') = Some (PDict [(PStr ''value'', PStr ''2019-06-01T12:00:00+02:00'')])
      \<and> map_of b (PStr ''status'') = Some (PDict [(PStr ''Code'', PInt 0), (PStr ''Reason'', PStr ''''),
              (PStr ''UserMessage'', PStr '''')])
      \<and> map_of b (PStr ''status_code'') = Some (PDict [(PStr ''value'', PInt 0)])
      \<and> map_of b (PStr ''status_reason'') = Some (PDict [(PStr ''value'', PStr '''')])
      \<and> map_of b (PStr ''status_message'') = Some (PDict [(PStr ''value'', PStr '''')]))"
proof -
  define J where "J = PDict
        [(PStr ''Head'', PDict [(PStr ''Timestamp'', PStr ''2019-06-01T12:00:00+02:00''),
           (PStr ''Status'', PDict [(PStr ''Code'', PInt 0), (PStr ''Reason'', PStr ''''),
              (PStr ''UserMessage'', PStr '''')])]),
         (PStr ''Body'', PDict [(PStr ''Data'',
            PDict [(PStr ''PAC'', PDict [(PStr ''Value'', PInt 5), (PStr ''Unit'', PStr ''W'')])])])]"
  have f: "answering J ''u'' = Inr J" by (simp add: answering_def)
  have m: "device_inverter_data \<in> {system_power_flow, system_meter_data, system_inverter_data,
       device_meter_data, device_storage_data, device_inverter_data}" by simp
  obtain b where b: "current_data (answering J) ''u'' device_inverter_data = Inr b"
    and p: "map_of b (PStr ''power_ac'') = Some (PDict [(PStr ''value'', PInt 5), (PStr ''unit'', PStr ''W'')])"
    unfolding J_def
    by (simp add: current_data_def answering_def status_data_def device_inverter_data_def
        device_inverter_fields_def copy_def copy_entry_def has_value_def dict_set_def)
  have fa: "field_at J [''Head'', ''Timestamp''] = Some (PStr ''2019-06-01T12:00:00+02:00'')"
    "field_at J [''Head'', ''Status''] = Some (PDict [(PStr ''Code'', PInt 0), (PStr ''Reason'', PStr ''''),
              (PStr ''UserMessage'', PStr '''')])"
    "field_at J [''Head'', ''Status'', ''Code''] = Some (PInt 0)"
    "field_at J [''Head'', ''Status'', ''Reason''] = Some (PStr '''')"
    "field_at J [''Head'', ''Status'', ''UserMessage''] = Some (PStr '''')"
    by (simp_all add: J_def)
  from header_fields_copied [where normalizer = device_inverter_data and fetch = "answering J"
      and url = "''u''" and json = J, OF m f] b fa p
  show ?thesis unfolding J_def [symmetric] by (auto simp: f)
qed

subsection \<open>Responses without a payload\<close>

lemma status_data_keys:
  assumes "status_data json = Inr header"
  shows "map fst header = map PStr [''timestamp'', ''status'', ''status_code'', ''status_reason'', ''status_message'']"
proof -
  from status_data_Inr_D [OF assms] obtain ts st code reason msg where
    "field_at json [''Head'', ''Timestamp''] = Some ts"
    "field_at json [''Head'', ''Status''] = Some st"
    "field_at json [''Head'', ''Status'', ''Code''] = Some code"
    "field_at json [''Head'', ''Status'', ''Reason''] = Some reason"
    "field_at json [''Head'', ''Status'', ''UserMessage''] = Some msg"
    by blast
  from status_data_Inr [OF this] assms show ?thesis by simp
qed

lemma getitem_field_at:
  "getitem json (PStr k) = (case field_at json [k] of Some v \<Rightarrow> Inr v
      | None \<Rightarrow> (if is_dict json then Inl KeyError else Inl TypeError))"
  by (cases json) (auto split: option.splits)

text \<open>
  C2, as amended. For every response whose \<open>Head\<close> is well-formed: when the \<open>Body\<close> key is
  present with a falsy value (null, false, 0, the empty string, array or object), or
  \<open>Body\<close> is a mapping with a \<open>Data\<close> key whose value is falsy, every endpoint operation
  returns the header-only bundle, whose keys are exactly the five header fields, and
  raises nothing; when the \<open>Body\<close> key is absent, \<open>json['Body']\<close> raises KeyError.
\<close>

theorem empty_payload_header_only:
  assumes "fetch url = Inr json" and "status_data json = Inr header"
  shows "(((\<exists>body. field_at json [''Body''] = Some body \<and> \<not> truthy body) \<or>
           (\<exists>data. field_at json [''Body'', ''Data''] = Some data \<and> \<not> truthy data)) \<longrightarrow>
            current_data fetch url normalizer = Inr header \<and>
            map fst header = map PStr [''timestamp'', ''status'', ''status_code'', ''status_reason'',
                                       ''status_message''])
       \<and> (field_at json [''Body''] = None \<longrightarrow> current_data fetch url normalizer = Inl KeyError)"
proof -
  from status_data_Inr_D [OF assms(2)] obtain d where d: "json = PDict d"
    by (cases json) auto
  have k: "map fst header = map PStr [''timestamp'', ''status'', ''status_code'', ''status_reason'',
                                       ''status_message'']"
    using assms(2) by (rule status_data_keys)
  have 1: "current_data fetch url normalizer = Inr header"
    if "field_at json [''Body''] = Some body" "\<not> truthy body" for body
    using that assms by (simp add: current_data_def d split: option.splits)
  have 2: "current_data fetch url normalizer = Inr header"
    if "field_at json [''Body'', ''Data''] = Some data" "\<not> truthy data" for data
  proof -
    have "getpath json (map PStr [''Body'', ''Data'']) = Inr data"
      using that(1) by (simp only: getpath_Inr_iff)
    moreover from that(1) obtain body where "getitem json (PStr ''Body'') = Inr body"
      by (auto simp: d split: option.splits)
    ultimately show ?thesis using that(2) assms by (simp add: current_data_def)
  qed
  have 3: "current_data fetch url normalizer = Inl KeyError" if "field_at json [''Body''] = None"
    using that assms by (simp add: current_data_def d split: option.splits)
  from k 1 2 3 show ?thesis by blast
qed

theorem empty_payload_header_only_witness:
  "current_data
     (answering (PDict
        [(PStr ''Head'', PDict [(PStr ''Timestamp'', PStr ''2019-06-01T12:00:00+02:00''),
           (PStr ''Status'', PDict [(PStr ''Code'', PInt 0), (PStr ''Reason'', PStr ''''),
              (PStr ''UserMessage'', PStr '''')])]),
         (PStr ''Body'', PDict [(PStr ''Data'', PDict [])])]))
     ''u'' system_meter_data =
   Inr [(PStr ''timestamp'', PDict [(PStr ''value'', PStr ''2019-06-01T12:00:00+02:00'')]),
        (PStr ''status'', PDict [(PStr ''Code'', PInt 0), (PStr ''Reason'', PStr ''''),
              (PStr ''UserMessage'', PStr '''')]),
        (PStr ''status_code'', PDict [(PStr ''value'', PInt 0)]),
        (PStr ''status_reason'', PDict [(PStr ''value'', PStr '''')]),
        (PStr ''status_message'', PDict [(PStr ''value'', PStr '''')])]"
proof -
  define J where "J = PDict
        [(PStr ''Head'', PDict [(PStr ''Timestamp'', PStr ''2019-06-01T12:00:00+02:00''),
           (PStr ''Status'', PDict [(PStr ''Code'', PInt 0), (PStr ''Reason'', PStr ''''),
              (PStr ''UserMessage'', PStr '''')])]),
         (PStr ''Body'', PDict [(PStr ''Data'', PDict [])])]"
  define H where "H = [(PStr ''timestamp'', PDict [(PStr ''value'', PStr ''2019-06-01T12:00:00+02:00'')]),
        (PStr ''status'', PDict [(PStr ''Code'', PInt 0), (PStr ''Reason'', PStr ''''),
              (PStr ''UserMessage'', PStr '''')]),
        (PStr ''status_code'', PDict [(PStr ''value'', PInt 0)]),
        (PStr ''status_reason'', PDict [(PStr ''value'', PStr '''')]),
        (PStr ''status_message'', PDict [(PStr ''value'', PStr '''')])]"
  have f: "answering J ''u'' = Inr J" by (simp add: answering_def)
  have s: "status_data J = Inr H"
    by (simp add: J_def H_def status_data_def dict_set_def)
  have e: "field_at J [''Body'', ''Data''] = Some (PDict [])" "\<not> truthy (PDict [])"
    by (simp_all add: J_def)
  from empty_payload_header_only [where fetch = "answering J" and url = "''u''" and json = J
      and header = H and normalizer = system_meter_data, OF f s] e
  show ?thesis unfolding J_def [symmetric] H_def [symmetric] by blast
qed

text \<open>
  The claim as stated includes the response with no \<open>Body\<close> key: there the single-device
  meter operation raises KeyError instead of returning the header-only bundle.
\<close>

theorem absent_body_raises:
  "current_meter_data (Fronius ''fronius'' False 10)
     (answering (PDict
        [(PStr ''Head'', PDict [(PStr ''Timestamp'', PStr ''2019-06-01T12:00:00+02:00''),
           (PStr ''Status'', PDict [(PStr ''Code'', PInt 0), (PStr ''Reason'', PStr ''''),
              (PStr ''UserMessage'', PStr '''')])])]))
     0 = Inl KeyError"
  by (simp add: current_meter_data_def Fronius_def format_device_meter current_data_def
      answering_def status_data_def dict_set_def)

subsection \<open>The power-flow normalizer\<close>

lemma system_power_flow_fields:
  assumes "field_at data [''Inverters'', ''1''] = Some inverter"
  shows "system_power_flow sensor data =
     (case field_at data [''Site''] of
        None \<Rightarrow> Inl KeyError
      | Some site \<Rightarrow>
          bindE (copy_all inverter power_flow_inverter_fields sensor) (copy_all site power_flow_site_fields))"
proof -
  from assms obtain d where d: "data = PDict d" by (cases data) auto
  have "getpath data (map PStr [''Inverters'', ''1'']) = Inr inverter"
    using assms by (simp only: getpath_Inr_iff)
  then have p: "getpath data [PStr ''Inverters'', PStr ''1''] = Inr inverter" by simp
  show ?thesis
    unfolding system_power_flow_def p
    by (simp add: d split: option.splits)
qed

text \<open>
  C6. The power-flow normalizer raises KeyError on every payload whose \<open>Inverters\<close> mapping
  has no key \<open>"1"\<close>, and of the \<open>Inverters\<close> mapping it reads the entry \<open>"1"\<close> only: two
  payloads with the same \<open>Site\<close> and the same \<open>Inverters["1"]\<close> give the same result,
  whatever other inverter ids they hold.
\<close>

theorem power_flow_reads_inverter_1:
  "(field_at data [''Inverters''] = Some (PDict inverters) \<and> map_of inverters (PStr ''1'') = None
      \<longrightarrow> system_power_flow sensor data = Inl KeyError)
   \<and> (field_at data [''Site''] = field_at data' [''Site''] \<and>
       field_at data [''Inverters'', ''1''] = Some inverter \<and>
       field_at data' [''Inverters'', ''1''] = Some inverter
      \<longrightarrow> system_power_flow sensor data = system_power_flow sensor data')"
proof (intro conjI impI)
  assume a: "field_at data [''Inverters''] = Some (PDict inverters) \<and> map_of inverters (PStr ''1'') = None"
  then obtain d where d: "data = PDict d" by (cases data) auto
  from a have "getpath data [PStr ''Inverters'', PStr ''1''] = Inl KeyError"
    by (auto simp: d split: option.splits)
  moreover have "getitem data (PStr ''Site'') = Inl KeyError \<or> (\<exists>s. getitem data (PStr ''Site'') = Inr s)"
    by (auto simp: d split: option.splits)
  ultimately show "system_power_flow sensor data = Inl KeyError"
    by (auto simp: system_power_flow_def)
next
  assume "field_at data [''Site''] = field_at data' [''Site''] \<and>
       field_at data [''Inverters'', ''1''] = Some inverter \<and>
       field_at data' [''Inverters'', ''1''] = Some inverter"
  then show "system_power_flow sensor data = system_power_flow sensor data'"
    by (simp add: system_power_flow_fields)
qed

theorem power_flow_reads_inverter_1_witness:
  "system_power_flow []
     (PDict [(PStr ''Site'', PDict [(PStr ''P_PV'', PInt 500)]),
             (PStr ''Inverters'', PDict [(PStr ''2'', PDict [(PStr ''SOC'', PInt 80)])])])
     = Inl KeyError
   \<and> system_power_flow []
     (PDict [(PStr ''Site'', PDict [(PStr ''P_PV'', PInt 500)]),
             (PStr ''Inverters'', PDict [(PStr ''1'', PDict [(PStr ''SOC'', PInt 50)]),
                                       (PStr ''2'', PDict [(PStr ''SOC'', PInt 80)])])])
     = system_power_flow []
     (PDict [(PStr ''Site'', PDict [(PStr ''P_PV'', PInt 500)]),
             (PStr ''Inverters'', PDict [(PStr ''1'', PDict [(PStr ''SOC'', PInt 50)])])])"
proof -
  have 1: "field_at (PDict [(PStr ''Site'', PDict [(PStr ''P_PV'', PInt 500)]),
             (PStr ''Inverters'', PDict [(PStr ''2'', PDict [(PStr ''SOC'', PInt 80)])])]) [''Inverters'']
      = Some (PDict [(PStr ''2'', PDict [(PStr ''SOC'', PInt 80)])])
      \<and> map_of [(PStr ''2'', PDict [(PStr ''SOC'', PInt 80)])] (PStr ''1'') = None"
    by simp
  have 2: "field_at (PDict [(PStr ''Site'', PDict [(PStr ''P_PV'', PInt 500)]),
             (PStr ''Inverters'', PDict [(PStr ''1'', PDict [(PStr ''SOC'', PInt 50)]),
                                       (PStr ''2'', PDict [(PStr ''SOC'', PInt 80)])])]) [''Site'']
      = field_at (PDict [(PStr ''Site'', PDict [(PStr ''P_PV'', PInt 500)]),
             (PStr ''Inverters'', PDict [(PStr ''1'', PDict [(PStr ''SOC'', PInt 50)])])]) [''Site'']
     \<and> field_at (PDict [(PStr ''Site'', PDict [(PStr ''P_PV'', PInt 500)]),
             (PStr ''Inverters'', PDict [(PStr ''1'', PDict [(PStr ''SOC'', PInt 50)]),
                                       (PStr ''2'', PDict [(PStr ''SOC'', PInt 80)])])]) [''Inverters'', ''1'']
      = Some (PDict [(PStr ''SOC'', PInt 50)])
     \<and> field_at (PDict [(PStr ''Site'', PDict [(PStr ''P_PV'', PInt 500)]),
             (PStr ''Inverters'', PDict [(PStr ''1'', PDict [(PStr ''SOC'', PInt 50)])])]) [''Inverters'', ''1'']
      = Some (PDict [(PStr ''SOC'', PInt 50)])"
    by simp
  from power_flow_reads_inverter_1 [THEN conjunct1, rule_format, OF 1]
    power_flow_reads_inverter_1 [THEN conjunct2, rule_format, OF 2]
  show ?thesis by blast
qed

subsection \<open>The single-device meter operation\<close>

lemma decimal_snoc: "decimal (s @ [c]) = 10 * decimal s + (of_char c - 48)"
  by (simp add: decimal_def)

lemma of_char_digit: "d < 10 \<Longrightarrow> of_char (char_of (48 + d) :: char) = (48 + d :: nat)"
  by (simp add: of_char_of take_bit_nat_eq_self)

lemma decimal_str_nat: "decimal (str_nat n) = n"
proof (induction n rule: str_nat.induct)
  case (1 n)
  show ?case
  proof (cases "n < 10")
    case True
    then show ?thesis
      using of_char_digit [of n] by (subst str_nat.simps) (simp add: decimal_def)
  next
    case False
    have "n mod 10 < 10" by simp
    from of_char_digit [OF this] 1 [OF False] False show ?thesis
      by (subst str_nat.simps) (simp add: decimal_snoc)
  qed
qed

text \<open>
  C10. For every host, secure-transport flag, timeout and device id, let \<open>url\<close> be the
  device-meter template with the scheme, the host and \<open>str(device)\<close> substituted, the
  scheme being \<open>https\<close> when the client was constructed with the flag set and \<open>http\<close>
  otherwise. \<open>current_meter_data(device)\<close> fetches that URL: an exception of the fetch at
  \<open>url\<close> is the exception of the operation; a document fetched from \<open>url\<close> is the one the
  operation processes, and when it has a well-formed \<open>Head\<close> and a non-empty \<open>Body.Data\<close>
  the result is the device meter normalizer on the header bundle and that payload; what
  the device answers at any other URL does not matter. \<open>str(device)\<close> is the decimal
  numeral of a non-negative id and a minus sign before that of \<open>-device\<close> otherwise, and
  for device 2 the URL contains \<open>Scope=Device&DeviceId=2\<close>.
\<close>

theorem current_meter_data_url:
  "(let url = (if useHTTPS then ''https'' else ''http'') @ ''://'' @ h @
        ''/solar_api/v1/GetMeterRealtimeData.cgi?Scope=Device&DeviceId='' @ str_int device
    in (\<forall>e. fetch url = Inl e \<longrightarrow>
            current_meter_data (Fronius h useHTTPS t) fetch device = Inl e)
     \<and> (\<forall>json. fetch url = Inr json \<longrightarrow>
            current_meter_data (Fronius h useHTTPS t) fetch device =
              current_data (answering json) url device_meter_data)
     \<and> (\<forall>json header data. fetch url = Inr json \<and> status_data json = Inr header \<and>
            field_at json [''Body'', ''Data''] = Some data \<and> truthy data \<longrightarrow>
            current_meter_data (Fronius h useHTTPS t) fetch device = device_meter_data header data)
     \<and> (\<forall>other. other url = fetch url \<longrightarrow>
            current_meter_data (Fronius h useHTTPS t) other device =
            current_meter_data (Fronius h useHTTPS t) fetch device))
   \<and> (0 \<le> device \<longrightarrow> decimal (str_int device) = nat device)
   \<and> (device < 0 \<longrightarrow> str_int device = CHR ''-'' # str_int (- device))
   \<and> substring ''Scope=Device&DeviceId=2''
       ((if useHTTPS then ''https'' else ''http'') @ ''://'' @ h @
        ''/solar_api/v1/GetMeterRealtimeData.cgi?Scope=Device&DeviceId='' @ str_int 2)"
proof -
  define url where "url = (if useHTTPS then ''https'' else ''http'') @ ''://'' @ h @
        ''/solar_api/v1/GetMeterRealtimeData.cgi?Scope=Device&DeviceId='' @ str_int device"
  have op: "current_meter_data (Fronius h useHTTPS t) f device = current_data f url device_meter_data" for f
    by (simp add: current_meter_data_def Fronius_def format_device_meter url_def)
  have 1: "current_meter_data (Fronius h useHTTPS t) fetch device = Inl e" if "fetch url = Inl e" for e
    using that by (simp add: op current_data_def)
  have 2: "current_meter_data (Fronius h useHTTPS t) fetch device =
              current_data (answering json) url device_meter_data" if "fetch url = Inr json" for json
    using that by (simp add: op current_data_def answering_def)
  have 3: "current_meter_data (Fronius h useHTTPS t) fetch device = device_meter_data header data"
    if "fetch url = Inr json \<and> status_data json = Inr header \<and>
            field_at json [''Body'', ''Data''] = Some data \<and> truthy data" for json header data
  proof -
    from that have "getpath json (map PStr [''Body'', ''Data'']) = Inr data"
      by (simp only: getpath_Inr_iff)
    then have p: "getpath json [PStr ''Body'', PStr ''Data''] = Inr data" by simp
    from that obtain d where d: "json = PDict d" by (cases json) auto
    from that obtain body where b: "getitem json (PStr ''Body'') = Inr body"
      and bd: "field_at body [''Data''] = Some data"
      by (auto simp: d split: option.splits)
    from bd have "truthy body" by (cases body) auto
    from that b p \<open>truthy body\<close> show ?thesis by (simp add: op current_data_def)
  qed
  have 4: "current_meter_data (Fronius h useHTTPS t) other device =
            current_meter_data (Fronius h useHTTPS t) fetch device" if "other url = fetch url" for other
    using that by (simp add: op current_data_def)
  have 5: "decimal (str_int device) = nat device" if "0 \<le> device"
    using that by (simp add: str_int_def decimal_str_nat)
  have 6: "str_int device = CHR ''-'' # str_int (- device)" if "device < 0"
    using that by (simp add: str_int_def)
  have "str_int 2 = ''2''" by code_simp
  moreover have "substring ''Scope=Device&DeviceId=2''
      (((if useHTTPS then ''https'' else ''http'') @ ''://'' @ h @ ''/solar_api/v1/GetMeterRealtimeData.cgi?'')
        @ ''Scope=Device&DeviceId=2'' @ [])"
    by (rule substring_append)
  ultimately have 7: "substring ''Scope=Device&DeviceId=2''
       ((if useHTTPS then ''https'' else ''http'') @ ''://'' @ h @
        ''/solar_api/v1/GetMeterRealtimeData.cgi?Scope=Device&DeviceId='' @ str_int 2)"
    by simp
  from 1 2 3 4 5 6 7 show ?thesis
    unfolding Let_def url_def [symmetric] by blast
qed

theorem current_meter_data_url_witness:
  "current_meter_data (Fronius ''fronius'' True 10) (failing URLError) 12 = Inl URLError
   \<and> decimal (str_int 12) = 12
   \<and> str_int (- 3) = CHR ''-'' # str_int 3
   \<and> current_meter_data (Fronius ''fronius'' False 10)
       (answering (PDict
        [(PStr ''Head'', PDict [(PStr ''Timestamp'', PStr ''2019-06-01T12:00:00+02:00''),
           (PStr ''Status'', PDict [(PStr ''Code'', PInt 0), (PStr ''Reason'', PStr ''''),
              (PStr ''UserMessage'', PStr '''')])]),
         (PStr ''Body'', PDict [(PStr ''Data'', PDict [(PStr ''Enable'', PInt 1)])])])) 2
     = device_meter_data
        [(PStr ''timestamp'', PDict [(PStr ''value'', PStr ''2019-06-01T12:00:00+02:00'')]),
         (PStr ''status'', PDict [(PStr ''Code'', PInt 0), (PStr ''Reason'', PStr ''''),
              (PStr ''UserMessage'', PStr '''')]),
         (PStr ''status_code'', PDict [(PStr ''value'', PInt 0)]),
         (PStr ''status_reason'', PDict [(PStr ''value'', PStr '''')]),
         (PStr ''status_message'', PDict [(PStr ''value'', PStr '''')])]
        (PDict [(PStr ''Enable'', PInt 1)])"
proof -
  define J where "J = PDict
        [(PStr ''Head'', PDict [(PStr ''Timestamp'', PStr ''2019-06-01T12:00:00+02:00''),
           (PStr ''Status'', PDict [(PStr ''Code'', PInt 0), (PStr ''Reason'', PStr ''''),
              (PStr ''UserMessage'', PStr '''')])]),
         (PStr ''Body'', PDict [(PStr ''Data'', PDict [(PStr ''Enable'', PInt 1)])])]"
  define H where "H = [(PStr ''timestamp'', PDict [(PStr ''value'', PStr ''2019-06-01T12:00:00+02:00'')]),
         (PStr ''status'', PDict [(PStr ''Code'', PInt 0), (PStr ''Reason'', PStr ''''),
              (PStr ''UserMessage'', PStr '''')]),
         (PStr ''status_code'', PDict [(PStr ''value'', PInt 0)]),
         (PStr ''status_reason'', PDict [(PStr ''value'', PStr '''')]),
         (PStr ''status_message'', PDict [(PStr ''value'', PStr '''')])]"
  have s: "status_data J = Inr H"
    by (simp add: J_def H_def status_data_def dict_set_def)
  have d: "field_at J [''Body'', ''Data''] = Some (PDict [(PStr ''Enable'', PInt 1)])"
    "truthy (PDict [(PStr ''Enable'', PInt 1)])"
    by (simp_all add: J_def)
  have a: "current_meter_data (Fronius ''fronius'' True 10) (failing URLError) 12 = Inl URLError
    \<and> decimal (str_int 12) = 12"
    using current_meter_data_url [where useHTTPS = True and h = "''fronius''" and device = 12
        and fetch = "failing URLError" and t = 10]
    by (simp add: Let_def failing_def)
  have b: "str_int (- 3) = CHR ''-'' # str_int 3"
    using current_meter_data_url [where useHTTPS = True and h = "''fronius''" and device = "- 3"
        and fetch = "failing URLError" and t = 10]
    by simp
  have f: "answering J u = Inr J" for u by (simp add: answering_def)
  have c: "current_meter_data (Fronius ''fronius'' False 10) (answering J) 2 =
      device_meter_data H (PDict [(PStr ''Enable'', PInt 1)])"
    by (rule current_meter_data_url [where useHTTPS = False and h = "''fronius''" and device = 2
        and fetch = "answering J" and t = 10, unfolded Let_def,
        THEN conjunct1, THEN conjunct2, THEN conjunct2, THEN conjunct1, rule_format,
        where json = J]) (simp add: f s d)
  from a b c show ?thesis unfolding J_def H_def by blast
qed

subsection \<open>Meter data, single device and system-wide\<close>

lemma copy_entry_PDict_Inr: "\<exists>e. copy_entry (PDict src) sid = Inr e"
proof (cases "map_of src (PStr sid)")
  case None
  then show ?thesis by (simp add: copy_entry_def has_value_def)
next
  case (Some field)
  show ?thesis
  proof (cases field)
    case (PDict f)
    with Some show ?thesis
      by (cases "map_of f (PStr ''Value'')"; cases "map_of f (PStr ''Unit'')")
         (simp_all add: copy_entry_def has_value_def)
  qed (use Some in \<open>simp_all add: copy_entry_def has_value_def\<close>)
qed

lemma copy_PDict_Inr: "\<exists>e. copy (PDict src) tgt sid tid unit = Inr (AList.update (PStr tid) (PDict e) tgt)"
proof -
  obtain e where "copy_entry (PDict src) sid = Inr e" using copy_entry_PDict_Inr by blast
  then show ?thesis by (auto simp: copy_def dict_set_def)
qed

lemma copy_all_PDict_Inr: "\<exists>t'. copy_all (PDict src) tab t = Inr t'"
proof (induction tab arbitrary: t)
  case Nil
  then show ?case by simp
next
  case (Cons row tab)
  obtain sid tid unit where row: "row = (sid, tid, unit)" by (cases row)
  from copy_PDict_Inr [of src t sid tid unit] obtain t1 where "copy (PDict src) t sid tid unit = Inr t1"
    by blast
  with Cons [of t1] row show ?case by simp
qed

lemma entity_data_PDict_Inr:
  assumes "field_at (PDict src) [''Details''] = None \<or> (\<exists>d. field_at (PDict src) [''Details''] = Some (PDict d))"
  shows "\<exists>e. entity_data tab (PDict src) = Inr e"
proof -
  obtain e0 where e0: "copy_all (PDict src) tab [] = Inr e0"
    using copy_all_PDict_Inr by blast
  from assms show ?thesis
  proof
    assume "field_at (PDict src) [''Details''] = None"
    then show ?thesis by (simp add: entity_data_def e0 split: option.splits)
  next
    assume "\<exists>d. field_at (PDict src) [''Details''] = Some (PDict d)"
    then obtain d where d: "map_of src (PStr ''Details'') = Some (PDict d)"
      by (auto split: option.splits)
    obtain e where "copy_all (PDict d) details_fields e0 = Inr e"
      using copy_all_PDict_Inr by blast
    with d show ?thesis by (simp add: entity_data_def e0)
  qed
qed

lemma copy_distinct:
  "copy s t sid tid u = Inr t' \<Longrightarrow> distinct (map fst t) \<Longrightarrow> distinct (map fst t')"
  by (auto simp: copy_def bindE_eq_Inr dict_set_def distinct_update)

lemma copy_all_distinct:
  "copy_all s tab t = Inr t' \<Longrightarrow> distinct (map fst t) \<Longrightarrow> distinct (map fst t')"
proof (induction s tab t rule: copy_all.induct)
  case (1 source target)
  then show ?case by simp
next
  case (2 source sid tid unit rest target)
  from "2.prems"(1) obtain t1 where c: "copy source target sid tid unit = Inr t1"
    and r: "copy_all source rest t1 = Inr t'"
    by (auto simp: bindE_eq_Inr)
  from copy_distinct [OF c "2.prems"(2)] "2.IH" [OF r] show ?case by simp
qed

lemma entity_data_distinct:
  assumes "entity_data tab data = Inr e"
  shows "distinct (map fst e)"
proof -
  from assms obtain e0 hd where e0: "copy_all data tab [] = Inr e0"
    and r: "(if hd then bindE (getitem data (PStr ''Details''))
               (\<lambda>details. copy_all details details_fields e0) else Inr e0) = Inr e"
    by (auto simp: entity_data_def bindE_eq_Inr)
  from copy_all_distinct [OF e0] have d0: "distinct (map fst e0)" by simp
  show ?thesis
  proof (cases hd)
    case True
    with r obtain details where "copy_all details details_fields e0 = Inr e"
      by (auto simp: bindE_eq_Inr)
    from copy_all_distinct [OF this d0] show ?thesis .
  next
    case False
    with r d0 show ?thesis by simp
  qed
qed

lemma map_of_dict_update:
  "distinct (map fst other) \<Longrightarrow> map_of (dict_update d other) = map_of d ++ map_of other"
  unfolding dict_update_def
proof (induction other arbitrary: d)
  case Nil
  then show ?case by simp
next
  case (Cons kv other)
  obtain k v where kv: "kv = (k, v)" by (cases kv)
  from Cons.prems kv have k: "k \<notin> fst ` set other" and d: "distinct (map fst other)" by auto
  from k have n: "map_of other k = None" by (simp add: map_of_eq_None_iff)
  have ih: "map_of (fold (\<lambda>(k, v). AList.update k v) other (AList.update k v d))
      = map_of (AList.update k v d) ++ map_of other"
    by (rule Cons.IH [OF d])
  have eq: "map_of (AList.update k v d) ++ map_of other = map_of d ++ (map_of other)(k \<mapsto> v)"
  proof (rule ext)
    fix x
    show "(map_of (AList.update k v d) ++ map_of other) x = (map_of d ++ (map_of other)(k \<mapsto> v)) x"
      using n by (cases "x = k") (simp_all add: update_conv' map_add_def split: option.splits)
  qed
  have l: "fold (\<lambda>(k, v). AList.update k v) (kv # other) d
      = fold (\<lambda>(k, v). AList.update k v) other (AList.update k v d)"
    by (simp add: kv)
  have r: "map_of (kv # other) = (map_of other)(k \<mapsto> v)" by (simp add: kv)
  show ?case by (simp only: l r ih eq)
qed

lemma update_fresh: "k \<notin> fst ` set al \<Longrightarrow> AList.update k v al = al @ [(k, v)]"
  by (induction al) auto

lemma dict_set_twice: "dict_set (dict_set d n v) n w = dict_set d n w"
  by (simp add: dict_set_def)

lemma update_in_dict_set:
  "f s = Inr s' \<Longrightarrow> update_in (dict_set d n (PDict s)) n f = Inr (dict_set d n (PDict s'))"
  by (simp add: update_in_def dict_get_def map_of_dict_set dict_set_twice)

lemma system_meter_loop:
  assumes dist: "distinct (map fst payloads)"
  shows "set rest \<subseteq> set payloads \<Longrightarrow> distinct (map fst rest) \<Longrightarrow>
     fst ` set rest \<inter> fst ` set ms = {} \<Longrightarrow>
     \<forall>kp\<in>set rest. (\<exists>s. fst kp = PStr s) \<and> (\<exists>m. meter_data (snd kp) = Inr m) \<Longrightarrow>
     \<exists>ms'. foreach (system_meter_step (PDict payloads)) (map fst rest)
              (dict_set sensor ''meters'' (PDict ms))
            = Inr (dict_set sensor ''meters'' (PDict (ms @ ms')))
          \<and> list_all2 (\<lambda>kp km. fst km = fst kp \<and>
                (\<exists>m. meter_data (snd kp) = Inr m \<and> snd km = PDict m)) rest ms'"
proof (induction rest arbitrary: ms)
  case Nil
  then show ?case by simp
next
  case (Cons kp rest)
  obtain s p where kp: "kp = (PStr s, p)" using Cons.prems(4) by (cases kp) auto
  from Cons.prems(4) kp obtain m where m: "meter_data p = Inr m" by auto
  from Cons.prems(1) kp have "(PStr s, p) \<in> set payloads" by simp
  with dist have g: "map_of payloads (PStr s) = Some p" by simp
  from Cons.prems(3) kp have fresh: "PStr s \<notin> fst ` set ms" by auto
  have step: "system_meter_step (PDict payloads) (dict_set sensor ''meters'' (PDict ms)) (PStr s)
      = Inr (dict_set sensor ''meters'' (PDict (ms @ [(PStr s, PDict m)])))"
    unfolding system_meter_step_def
    using update_in_dict_set [of "\<lambda>meters. setitem meters (PStr s) (PDict m)" ms
        "ms @ [(PStr s, PDict m)]" sensor "''meters''"] fresh
    by (simp add: g m setitem_def update_fresh)
  have "set rest \<subseteq> set payloads" "distinct (map fst rest)"
    "fst ` set rest \<inter> fst ` set (ms @ [(PStr s, PDict m)]) = {}"
    "\<forall>kp\<in>set rest. (\<exists>s. fst kp = PStr s) \<and> (\<exists>m. meter_data (snd kp) = Inr m)"
    using Cons.prems kp by auto
  from Cons.IH [OF this] obtain ms' where
    r: "foreach (system_meter_step (PDict payloads)) (map fst rest)
          (dict_set sensor ''meters'' (PDict (ms @ [(PStr s, PDict m)])))
        = Inr (dict_set sensor ''meters'' (PDict ((ms @ [(PStr s, PDict m)]) @ ms')))"
    and l: "list_all2 (\<lambda>kp km. fst km = fst kp \<and>
                (\<exists>m. meter_data (snd kp) = Inr m \<and> snd km = PDict m)) rest ms'"
    by blast
  have "foreach (system_meter_step (PDict payloads)) (map fst (kp # rest))
          (dict_set sensor ''meters'' (PDict ms))
        = Inr (dict_set sensor ''meters'' (PDict (ms @ ((PStr s, PDict m) # ms'))))"
    using step r by (simp add: kp)
  moreover have "list_all2 (\<lambda>kp km. fst km = fst kp \<and>
                (\<exists>m. meter_data (snd kp) = Inr m \<and> snd km = PDict m)) (kp # rest) ((PStr s, PDict m) # ms')"
    using l m by (simp add: kp)
  ultimately show ?case by blast
qed

lemma meter_data_no_meters:
  assumes "meter_data data = Inr meter"
  shows "map_of meter (PStr ''meters'') = None"
proof -
  have "PStr ''meters'' \<notin> (\<lambda>(sid, tid, u). PStr tid) ` (set meter_fields \<union> set details_fields)"
    by (auto simp: meter_fields_def details_fields_def)
  with entity_data_keys [OF assms [unfolded meter_data_def]] have "PStr ''meters'' \<notin> fst ` set meter"
    by blast
  then show ?thesis by (simp add: map_of_eq_None_iff)
qed

text \<open>
  C8. The single-device meter operation's normalizer merges the meter normalizer's
  fields into the top-level bundle (\<open>sensor.update\<close>) and adds no \<open>meters\<close> entry; it raises
  what the meter normalizer raises. The system-wide normalizer, on a payload mapping
  meter ids to payloads that the meter normalizer accepts, stores under \<open>meters\<close> a mapping
  with the same ids in the same order, each id holding the meter normalizer's result for
  its payload, and leaves the rest of the bundle as it was.
\<close>

theorem meter_bundles:
  "(\<forall>meter. meter_data data = Inr meter \<longrightarrow>
      device_meter_data sensor data = Inr (dict_update sensor meter) \<and>
      map_of (dict_update sensor meter) = map_of sensor ++ map_of meter \<and>
      map_of (dict_update sensor meter) (PStr ''meters'') = map_of sensor (PStr ''meters''))
   \<and> (\<forall>e. meter_data data = Inl e \<longrightarrow> device_meter_data sensor data = Inl e)
   \<and> (distinct (map fst payloads) \<and>
       (\<forall>kp\<in>set payloads. (\<exists>s. fst kp = PStr s) \<and> (\<exists>m. meter_data (snd kp) = Inr m)) \<longrightarrow>
       (\<exists>meters.
          system_meter_data sensor (PDict payloads) = Inr (dict_set sensor ''meters'' (PDict meters)) \<and>
          list_all2 (\<lambda>kp km. fst km = fst kp \<and>
             (\<exists>m. meter_data (snd kp) = Inr m \<and> snd km = PDict m)) payloads meters))"
proof (intro conjI allI impI)
  fix meter assume m: "meter_data data = Inr meter"
  then show "device_meter_data sensor data = Inr (dict_update sensor meter)"
    by (simp add: device_meter_data_def)
  from entity_data_distinct [OF m [unfolded meter_data_def]]
  show u: "map_of (dict_update sensor meter) = map_of sensor ++ map_of meter"
    by (rule map_of_dict_update)
  from meter_data_no_meters [OF m]
  show "map_of (dict_update sensor meter) (PStr ''meters'') = map_of sensor (PStr ''meters'')"
    by (simp add: u map_add_def)
next
  fix e assume "meter_data data = Inl e"
  then show "device_meter_data sensor data = Inl e" by (simp add: device_meter_data_def)
next
  assume a: "distinct (map fst payloads) \<and>
       (\<forall>kp\<in>set payloads. (\<exists>s. fst kp = PStr s) \<and> (\<exists>m. meter_data (snd kp) = Inr m))"
  from a have d: "distinct (map fst payloads)" by simp
  have "\<exists>ms'. foreach (system_meter_step (PDict payloads)) (map fst payloads)
              (dict_set sensor ''meters'' (PDict []))
            = Inr (dict_set sensor ''meters'' (PDict ([] @ ms')))
          \<and> list_all2 (\<lambda>kp km. fst km = fst kp \<and>
                (\<exists>m. meter_data (snd kp) = Inr m \<and> snd km = PDict m)) payloads ms'"
    using a by (intro system_meter_loop [OF d]) auto
  then show "\<exists>meters.
          system_meter_data sensor (PDict payloads) = Inr (dict_set sensor ''meters'' (PDict meters)) \<and>
          list_all2 (\<lambda>kp km. fst km = fst kp \<and>
             (\<exists>m. meter_data (snd kp) = Inr m \<and> snd km = PDict m)) payloads meters"
    by (simp add: system_meter_data_def)
qed

theorem meter_bundles_witness:
  "(\<exists>b. device_meter_data [] (PDict [(PStr ''Enable'', PInt 1)]) = Inr b
       \<and> getpath (PDict b) [PStr ''enable'', PStr ''value''] = Inr (PInt 1)
       \<and> map_of b (PStr ''meters'') = None)
   \<and> (\<exists>b. system_meter_data [] (PDict [(PStr ''0'', PDict [(PStr ''Enable'', PInt 1)])]) = Inr b
       \<and> getpath (PDict b) [PStr ''meters'', PStr ''0'', PStr ''enable'', PStr ''value'']
            = Inr (PInt 1)
       \<and> map_of b (PStr ''enable'') = None)"
proof -
  obtain m where m: "meter_data (PDict [(PStr ''Enable'', PInt 1)]) = Inr m"
    and e: "map_of m (PStr ''enable'') = Some (PDict [(PStr ''value'', PInt 1)])"
    by (simp add: meter_data_def entity_data_def meter_fields_def copy_def copy_entry_def
        has_value_def dict_set_def)
  note T = meter_bundles [where data = "PDict [(PStr ''Enable'', PInt 1)]" and sensor = "[]"
      and payloads = "[(PStr ''0'', PDict [(PStr ''Enable'', PInt 1)])]"]
  from T m have 1: "device_meter_data [] (PDict [(PStr ''Enable'', PInt 1)]) = Inr (dict_update [] m)"
    and 2: "map_of (dict_update [] m) = map_of [] ++ map_of m"
    and 3: "map_of (dict_update [] m) (PStr ''meters'') = map_of [] (PStr ''meters'')"
    by blast+
  from 2 e have "getpath (PDict (dict_update [] m)) [PStr ''enable'', PStr ''value''] = Inr (PInt 1)"
    by simp
  with 1 3 have A: "\<exists>b. device_meter_data [] (PDict [(PStr ''Enable'', PInt 1)]) = Inr b
       \<and> getpath (PDict b) [PStr ''enable'', PStr ''value''] = Inr (PInt 1)
       \<and> map_of b (PStr ''meters'') = None"
    by simp
  from T m obtain meters where
    s: "system_meter_data [] (PDict [(PStr ''0'', PDict [(PStr ''Enable'', PInt 1)])])
        = Inr (dict_set [] ''meters'' (PDict meters))"
    and l: "list_all2 (\<lambda>kp km. fst km = fst kp \<and>
             (\<exists>m. meter_data (snd kp) = Inr m \<and> snd km = PDict m))
             [(PStr ''0'', PDict [(PStr ''Enable'', PInt 1)])] meters"
    by auto
  from l m have "meters = [(PStr ''0'', PDict m)]"
    by (auto simp: list_all2_Cons1)
  with s e have B: "\<exists>b. system_meter_data [] (PDict [(PStr ''0'', PDict [(PStr ''Enable'', PInt 1)])]) = Inr b
       \<and> getpath (PDict b) [PStr ''meters'', PStr ''0'', PStr ''enable'', PStr ''value'']
            = Inr (PInt 1)
       \<and> map_of b (PStr ''enable'') = None"
    by (simp add: dict_set_def)
  from A B show ?thesis by blast
qed

subsection \<open>Device storage data\<close>






end
